theory Spec2Isabelle
  imports Main
begin

section \<open>Constants, status codes and data of simple\_shell.h\<close>

text \<open>
  The capacities of the header (the \<^verbatim>\<open>#define\<close>s of lines 21 to 27).
\<close>

definition MAX_INPUT_SIZE :: nat where "MAX_INPUT_SIZE = 1024"
definition MAX_HISTORY_SIZE :: nat where "MAX_HISTORY_SIZE = 100"
definition MAX_ENV_VARS :: nat where "MAX_ENV_VARS = 100"
definition MAX_CUSTOM_COMMANDS :: nat where "MAX_CUSTOM_COMMANDS = 50"
definition MAX_JOBS :: nat where "MAX_JOBS = 100"
definition MAX_ALIASES :: nat where "MAX_ALIASES = 50"

datatype ShellError =
    SHELL_OK
  | SHELL_ERROR_NULL_POINTER
  | SHELL_ERROR_MEMORY_ALLOCATION
  | SHELL_ERROR_INVALID_INPUT
  | SHELL_ERROR_COMMAND_NOT_FOUND
  | SHELL_ERROR_EXECUTION_FAILED
  | SHELL_ERROR_SIGNAL_HANDLING_FAILED
  | SHELL_ERROR_HISTORY_FULL
  | SHELL_ERROR_ENV_VAR_NOT_FOUND
  | SHELL_ERROR_ENV_VAR_FULL
  | SHELL_ERROR_CUSTOM_COMMAND_FULL
  | SHELL_ERROR_JOB_CONTROL_FULL
  | SHELL_ERROR_REDIRECTION_FAILED
  | SHELL_ERROR_PIPELINE_FAILED
  | SHELL_ERROR_ALIAS_FULL
  | SHELL_ERROR_TAB_COMPLETION_FAILED

datatype signal = SIGINT | SIGTERM

text \<open>
  A \<^verbatim>\<open>char *\<close> is a \<^typ>\<open>string option\<close>: \<^term>\<open>None\<close> is the null pointer.
  A fixed-size array of the context is a function from the index to the cell; the
  cells at and above the count are whatever the memory held (\<^verbatim>\<open>shell_init\<close> does
  not write them). Counts are \<^typ>\<open>nat\<close>: they start at 0 and are only incremented.
\<close>

record ShellContext =
  input :: "string option"
  output' :: "string option"
  error :: "string option"
  history :: "nat \<Rightarrow> string option"
  history_count :: nat
  env_vars :: "nat \<Rightarrow> string option"
  env_vars_count :: nat
  child_pid :: int
  signal_mask :: "signal set"
  last_error :: ShellError
  prompt :: "string option"
  interactive :: bool

record Job =
  pid :: int
  command :: "string option"
  running :: bool

text \<open>
  A callback receives \<^verbatim>\<open>&ctx->base\<close>, \<^verbatim>\<open>argc\<close> and \<^verbatim>\<open>argv\<close>. It is a function of
  what it is handed: it returns a status and the base context as it leaves it. The
  registry and the job table are not behind the pointer it gets.
\<close>

type_synonym CommandCallback =
  "ShellContext \<Rightarrow> nat \<Rightarrow> string option list \<Rightarrow> ShellError \<times> ShellContext"

record CustomCommand =
  name :: "string option"
  callback :: "CommandCallback option"

record Alias =
  alias_name :: "string option"
  alias_value :: "string option"

record ExtendedShellContext =
  base :: ShellContext
  custom_commands :: "nat \<Rightarrow> CustomCommand"
  custom_command_count :: nat
  jobs :: "nat \<Rightarrow> Job"
  job_count :: nat
  aliases :: "nat \<Rightarrow> Alias"
  alias_count :: nat

section \<open>The operating system as a trace and an oracle\<close>

datatype oflag = O_RDONLY | O_WRONLY | O_CREAT | O_APPEND | O_TRUNC

datatype spawn_flag = POSIX_SPAWN_SETSIGMASK | POSIX_SPAWN_SETSIGDEF

definition STDIN_FILENO :: nat where "STDIN_FILENO = 0"
definition STDOUT_FILENO :: nat where "STDOUT_FILENO = 1"

text \<open>
  One \<^verbatim>\<open>posix_spawn_file_actions_addopen\<close>: descriptor, path, open flags (the
  bitwise or of the flags, as their set) and creation mode.
\<close>

record file_action =
  fa_fd :: nat
  fa_path :: string
  fa_oflag :: "oflag set"
  fa_mode :: nat

text \<open>
  What \<^verbatim>\<open>posix_spawnp\<close> is called with: the file \<^verbatim>\<open>argv[0]\<close>, the argument
  vector as the callee reads it (up to the first null pointer), the file actions in
  the order they were added, and the spawn attributes.
\<close>

record spawn_request =
  sp_file :: "string option"
  sp_argv :: "string list"
  sp_file_actions :: "file_action list"
  sp_flags :: "spawn_flag set"
  sp_sigmask :: "signal set"

text \<open>
  Every call that leaves the library is an event of the trace, in call order:
  allocation, the system calls, the lines printed and the custom callbacks entered
  (registry index, \<^verbatim>\<open>argc\<close>, the \<^verbatim>\<open>argv\<close> cells).
\<close>

datatype event =
    Ev_strdup string
  | Ev_sigprocmask "signal set"
  | Ev_waitpid int
  | Ev_posix_spawnp spawn_request
  | Ev_callback nat nat "string option list"
  | Ev_printf_done nat "string option"
  | Ev_printf_history nat "string option"
  | Ev_printf_job nat bool "string option"

text \<open>
  What the system answers is not the library's choice: an oracle gives the result of
  each call from the trace up to and including that call. Every theorem below holds
  for every oracle.
\<close>

record env =
  strdup_ok :: "event list \<Rightarrow> bool"
  sigprocmask_result :: "event list \<Rightarrow> int"
  waitpid_result :: "event list \<Rightarrow> int"
  posix_spawnp_result :: "event list \<Rightarrow> int \<times> int"

text \<open>
  The state threaded through the library: the context \<^verbatim>\<open>ctx\<close> points to, and the
  trace. The pointer itself is \<^term>\<open>NULL\<close> or the address of that context.
\<close>

record sys =
  mem :: ExtendedShellContext
  trace :: "event list"

datatype ctx_ptr = NULL | Ctx

text \<open>
  A call returns a status, ends the process (\<^verbatim>\<open>exit\<close>), or has no defined
  behaviour (a null pointer handed to \<^verbatim>\<open>strcmp\<close> or called, an access outside an
  array).
\<close>

datatype result = Return ShellError | Exit int | Fault

fun returned :: "result \<Rightarrow> bool" where
  "returned (Return e) = True"
| "returned (Exit n) = False"
| "returned Fault = False"

definition log_event :: "event \<Rightarrow> sys \<Rightarrow> sys" where
  "log_event e s = s\<lparr>trace := trace s @ [e]\<rparr>"

definition set_last_error :: "ShellError \<Rightarrow> sys \<Rightarrow> sys" where
  "set_last_error e s = s\<lparr>mem := (mem s)\<lparr>base := (base (mem s))\<lparr>last_error := e\<rparr>\<rparr>\<rparr>"

definition strdup :: "env \<Rightarrow> string \<Rightarrow> sys \<Rightarrow> string option \<times> sys" where
  "strdup env str s =
     (let s1 = log_event (Ev_strdup str) s
      in (if strdup_ok env (trace s1) then Some str else None, s1))"

definition read_slot :: "'a list \<Rightarrow> nat \<Rightarrow> 'a option" where
  "read_slot cells i = (if i < length cells then Some (cells ! i) else None)"

section \<open>Initialisation, registration and the job table\<close>

definition shell_init :: "env \<Rightarrow> ctx_ptr \<Rightarrow> string option \<Rightarrow> bool \<Rightarrow> sys \<Rightarrow> result \<times> sys" where
  "shell_init env ctx prompt_arg interactive_arg s =
     (if ctx = NULL then (Return SHELL_ERROR_NULL_POINTER, s)
      else
        let (p, s1) = strdup env (case prompt_arg of Some pr \<Rightarrow> pr | None \<Rightarrow> ''> '') s;
            c = mem s1;
            b = (base c)\<lparr>input := None, output' := None, error := None,
                  history_count := 0, env_vars_count := 0, child_pid := - 1,
                  last_error := SHELL_OK, prompt := p, interactive := interactive_arg,
                  signal_mask := {SIGINT, SIGTERM}\<rparr>;
            s2 = s1\<lparr>mem := c\<lparr>base := b, custom_command_count := 0, job_count := 0,
                  alias_count := 0\<rparr>\<rparr>;
            s3 = log_event (Ev_sigprocmask (signal_mask b)) s2
        in if sigprocmask_result env (trace s3) = - 1
           then (Return SHELL_ERROR_SIGNAL_HANDLING_FAILED,
                 set_last_error SHELL_ERROR_SIGNAL_HANDLING_FAILED s3)
           else (Return SHELL_OK, s3))"

definition shell_register_command ::
    "env \<Rightarrow> ctx_ptr \<Rightarrow> string option \<Rightarrow> CommandCallback option \<Rightarrow> sys \<Rightarrow> result \<times> sys" where
  "shell_register_command env ctx name_arg callback_arg s =
     (if ctx = NULL \<or> name_arg = None \<or> callback_arg = None
      then (Return SHELL_ERROR_NULL_POINTER, s)
      else if custom_command_count (mem s) \<ge> MAX_CUSTOM_COMMANDS
      then (Return SHELL_ERROR_CUSTOM_COMMAND_FULL,
            set_last_error SHELL_ERROR_CUSTOM_COMMAND_FULL s)
      else
        let (n, s1) = strdup env (the name_arg) s;
            i = custom_command_count (mem s1);
            s2 = s1\<lparr>mem := (mem s1)\<lparr>custom_commands :=
                   (custom_commands (mem s1))(i := (custom_commands (mem s1) i)\<lparr>name := n\<rparr>)\<rparr>\<rparr>
        in if n = None
           then (Return SHELL_ERROR_MEMORY_ALLOCATION,
                 set_last_error SHELL_ERROR_MEMORY_ALLOCATION s2)
           else (Return SHELL_OK,
                 s2\<lparr>mem := (mem s2)\<lparr>custom_commands :=
                     (custom_commands (mem s2))(i := (custom_commands (mem s2) i)\<lparr>callback := callback_arg\<rparr>),
                   custom_command_count := i + 1\<rparr>\<rparr>))"

definition shell_add_job :: "env \<Rightarrow> ctx_ptr \<Rightarrow> int \<Rightarrow> string option \<Rightarrow> sys \<Rightarrow> result \<times> sys" where
  "shell_add_job env ctx pid_arg command_arg s =
     (if ctx = NULL \<or> command_arg = None then (Return SHELL_ERROR_NULL_POINTER, s)
      else if job_count (mem s) \<ge> MAX_JOBS
      then (Return SHELL_ERROR_JOB_CONTROL_FULL, set_last_error SHELL_ERROR_JOB_CONTROL_FULL s)
      else
        let (c, s1) = strdup env (the command_arg) s;
            i = job_count (mem s1)
        in (Return SHELL_OK,
            s1\<lparr>mem := (mem s1)\<lparr>jobs := (jobs (mem s1))(i := \<lparr>pid = pid_arg, command = c, running = True\<rparr>),
                                 job_count := i + 1\<rparr>\<rparr>))"

text \<open>
  One turn of the loop of \<^verbatim>\<open>shell_update_jobs\<close> (lines 205 to 212): only a job
  whose running flag is set is asked about, with \<^verbatim>\<open>waitpid(pid, &status, WNOHANG)\<close>.
\<close>

definition update_job :: "env \<Rightarrow> nat \<Rightarrow> sys \<Rightarrow> sys" where
  "update_job env i s =
     (if running (jobs (mem s) i) then
        let s1 = log_event (Ev_waitpid (pid (jobs (mem s) i))) s
        in if waitpid_result env (trace s1) > 0
           then log_event (Ev_printf_done (i + 1) (command (jobs (mem s1) i)))
                  (s1\<lparr>mem := (mem s1)\<lparr>jobs := (jobs (mem s1))(i := (jobs (mem s1) i)\<lparr>running := False\<rparr>)\<rparr>\<rparr>)
           else s1
      else s)"

lemma job_count_update_job [simp]: "job_count (mem (update_job env i s)) = job_count (mem s)"
  by (simp add: update_job_def log_event_def Let_def)

function update_jobs_loop :: "env \<Rightarrow> nat \<Rightarrow> sys \<Rightarrow> sys" where
  "update_jobs_loop env i s =
     (if i < job_count (mem s) then update_jobs_loop env (Suc i) (update_job env i s) else s)"
  by pat_completeness auto
termination
  by (relation "measure (\<lambda>(env, i, s). job_count (mem s) - i)") auto

declare update_jobs_loop.simps [simp del]

definition shell_update_jobs :: "env \<Rightarrow> ctx_ptr \<Rightarrow> sys \<Rightarrow> result \<times> sys" where
  "shell_update_jobs env ctx s =
     (if ctx = NULL then (Return SHELL_ERROR_NULL_POINTER, s)
      else (Return SHELL_OK, update_jobs_loop env 0 s))"

section \<open>The three execution strategies\<close>

text \<open>
  The call of line 224: the callback of registry entry \<open>i\<close> runs on \<^verbatim>\<open>&ctx->base\<close>
  and its status is the status of \<^verbatim>\<open>shell_execute_custom\<close>.
\<close>

definition call_custom :: "nat \<Rightarrow> CommandCallback \<Rightarrow> nat \<Rightarrow> string option list \<Rightarrow> sys \<Rightarrow> result \<times> sys" where
  "call_custom i cb argc argv s =
     (let s1 = log_event (Ev_callback i argc argv) s;
          (e, b) = cb (base (mem s1)) argc argv
      in (Return e, s1\<lparr>mem := (mem s1)\<lparr>base := b\<rparr>\<rparr>))"

text \<open>
  The loop of \<^verbatim>\<open>shell_execute_custom\<close> (lines 222 to 226), from index \<open>i\<close> on.
  \<^verbatim>\<open>strcmp(argv[0], name)\<close> needs both pointers: a null one is a fault. The first
  entry with an equal name is called; with none, the command is not found.
\<close>

function custom_loop :: "nat \<Rightarrow> nat \<Rightarrow> string option list \<Rightarrow> sys \<Rightarrow> result \<times> sys" where
  "custom_loop i argc argv s =
     (if i < custom_command_count (mem s) then
        (case read_slot argv 0 of
           None \<Rightarrow> (Fault, s)
         | Some None \<Rightarrow> (Fault, s)
         | Some (Some a0) \<Rightarrow>
            (case name (custom_commands (mem s) i) of
               None \<Rightarrow> (Fault, s)
             | Some n \<Rightarrow>
                if a0 = n then
                  (case callback (custom_commands (mem s) i) of
                     None \<Rightarrow> (Fault, s)
                   | Some cb \<Rightarrow> call_custom i cb argc argv s)
                else custom_loop (Suc i) argc argv s))
      else (Return SHELL_ERROR_COMMAND_NOT_FOUND,
            set_last_error SHELL_ERROR_COMMAND_NOT_FOUND s))"
  by pat_completeness auto
termination
  by (relation "measure (\<lambda>(i, argc, argv, s). custom_command_count (mem s) - i)") auto

declare custom_loop.simps [simp del]

definition shell_execute_custom ::
    "env \<Rightarrow> ctx_ptr \<Rightarrow> nat \<Rightarrow> string option list option \<Rightarrow> sys \<Rightarrow> result \<times> sys" where
  "shell_execute_custom env ctx argc argv s =
     (if ctx = NULL \<or> argv = None then (Return SHELL_ERROR_NULL_POINTER, s)
      else custom_loop 0 argc (the argv) s)"

text \<open>
  The two printing loops of \<^verbatim>\<open>shell_execute_builtin\<close> change nothing but the
  output: one printed line per index below the count, in order.
\<close>

definition print_history :: "sys \<Rightarrow> sys" where
  "print_history s =
     s\<lparr>trace := trace s @
        map (\<lambda>i. Ev_printf_history (i + 1) (history (base (mem s)) i))
          [0 ..< history_count (base (mem s))]\<rparr>"

definition print_jobs :: "sys \<Rightarrow> sys" where
  "print_jobs s =
     s\<lparr>trace := trace s @
        map (\<lambda>i. Ev_printf_job (i + 1) (running (jobs (mem s) i)) (command (jobs (mem s) i)))
          [0 ..< job_count (mem s)]\<rparr>"

definition shell_execute_builtin :: "env \<Rightarrow> ctx_ptr \<Rightarrow> string option \<Rightarrow> sys \<Rightarrow> result \<times> sys" where
  "shell_execute_builtin env ctx command_arg s =
     (if ctx = NULL \<or> command_arg = None then (Return SHELL_ERROR_NULL_POINTER, s)
      else if the command_arg = ''exit'' then (Exit 0, s)
      else if the command_arg = ''history'' then (Return SHELL_OK, print_history s)
      else if the command_arg = ''jobs''
      then (Return SHELL_OK, print_jobs (snd (shell_update_jobs env ctx s)))
      else (Return SHELL_ERROR_COMMAND_NOT_FOUND,
            set_last_error SHELL_ERROR_COMMAND_NOT_FOUND s))"

text \<open>
  The file actions of lines 271 to 280: one \<^verbatim>\<open>addopen\<close> on standard input when
  \<^verbatim>\<open>input_file\<close> is not null, then one on standard output when \<^verbatim>\<open>output_file\<close> is
  not null, with mode 0644 (octal).
\<close>

definition redirect_actions :: "string option \<Rightarrow> string option \<Rightarrow> bool \<Rightarrow> file_action list" where
  "redirect_actions input_file output_file append_output =
     (case input_file of
        None \<Rightarrow> []
      | Some f \<Rightarrow> [\<lparr>fa_fd = STDIN_FILENO, fa_path = f, fa_oflag = {O_RDONLY}, fa_mode = 0\<rparr>]) @
     (case output_file of
        None \<Rightarrow> []
      | Some f \<Rightarrow>
          [\<lparr>fa_fd = STDOUT_FILENO, fa_path = f,
            fa_oflag = {O_WRONLY, O_CREAT} \<union> (if append_output then {O_APPEND} else {O_TRUNC}),
            fa_mode = 420\<rparr>])"

text \<open>
  The argument vector as \<^verbatim>\<open>posix_spawnp\<close> reads it: the cells before the first null
  pointer.
\<close>

definition argv_strings :: "string option list \<Rightarrow> string list" where
  "argv_strings cells = map the (takeWhile (\<lambda>c. c \<noteq> None) cells)"

text \<open>
  \<^verbatim>\<open>shell_execute_external\<close>. The status and the process identifier of
  \<^verbatim>\<open>posix_spawnp\<close> come from the oracle. \<^verbatim>\<open>argv[0]\<close> goes to \<^verbatim>\<open>posix_spawnp\<close> as it
  is, null or not: the code does not look at it. On success the job is added and the
  status of \<^verbatim>\<open>shell_add_job\<close> is dropped (line 290).
\<close>

definition shell_execute_external ::
    "env \<Rightarrow> ctx_ptr \<Rightarrow> string option list option \<Rightarrow> string option \<Rightarrow> string option \<Rightarrow> bool
      \<Rightarrow> sys \<Rightarrow> result \<times> sys" where
  "shell_execute_external env ctx argv input_file output_file append_output s =
     (if ctx = NULL \<or> argv = None then (Return SHELL_ERROR_NULL_POINTER, s)
      else
        (case read_slot (the argv) 0 of
           None \<Rightarrow> (Fault, s)
         | Some argv0 \<Rightarrow>
            let req = \<lparr>sp_file = argv0, sp_argv = argv_strings (the argv),
                       sp_file_actions = redirect_actions input_file output_file append_output,
                       sp_flags = {POSIX_SPAWN_SETSIGMASK, POSIX_SPAWN_SETSIGDEF},
                       sp_sigmask = signal_mask (base (mem s))\<rparr>;
                s1 = log_event (Ev_posix_spawnp req) s;
                (status, child) = posix_spawnp_result env (trace s1)
            in if status \<noteq> 0
               then (Return SHELL_ERROR_EXECUTION_FAILED,
                     set_last_error SHELL_ERROR_EXECUTION_FAILED s1)
               else (Return SHELL_OK, snd (shell_add_job env ctx child argv0 s1))))"

section \<open>Tokenising, redirections and dispatch\<close>

text \<open>
  The \<^verbatim>\<open>strtok\<close> loop of lines 306 to 310 with the delimiter string \<^verbatim>\<open>" "\<close>: skip
  the spaces, stop at the end of the line, else the token runs to the next space.
\<close>

function strtok_loop :: "string \<Rightarrow> string list" where
  "strtok_loop str =
     (let rest = dropWhile (\<lambda>c. c = CHR '' '') str
      in if rest = [] then []
         else takeWhile (\<lambda>c. c \<noteq> CHR '' '') rest #
              strtok_loop (dropWhile (\<lambda>c. c \<noteq> CHR '' '') rest))"
  by pat_completeness auto

lemma length_dropWhile_less:
  "xs \<noteq> [] \<Longrightarrow> P (hd xs) \<Longrightarrow> length (dropWhile P xs) < length xs"
  by (cases xs) (auto simp: le_imp_less_Suc length_dropWhile_le)

lemma hd_dropWhile_not: "dropWhile P xs \<noteq> [] \<Longrightarrow> \<not> P (hd (dropWhile P xs))"
  by (simp add: hd_dropWhile)

termination strtok_loop
proof (relation "measure length")
  show "wf (measure length)" by simp
next
  fix str :: string and rest :: string
  assume r: "rest = dropWhile (\<lambda>c. c = CHR '' '') str" and ne: "rest \<noteq> []"
  from r ne have "hd rest \<noteq> CHR '' ''"
    using hd_dropWhile_not [of "\<lambda>c. c = CHR '' ''" str] by simp
  with ne have "length (dropWhile (\<lambda>c. c \<noteq> CHR '' '') rest) < length rest"
    by (intro length_dropWhile_less) simp_all
  also have "length rest \<le> length str"
    using r by (simp add: length_dropWhile_le)
  finally show "(dropWhile (\<lambda>c. c \<noteq> CHR '' '') rest, str) \<in> measure length" by simp
qed

declare strtok_loop.simps [simp del]

text \<open>
  The local variables of \<^verbatim>\<open>shell_execute_command\<close> that the redirection loop works
  on. \<^verbatim>\<open>tokens\<close> holds the cells of the array that were written: the tokens and the
  terminating null pointer of line 311. A read outside them is a fault.
\<close>

record parsed =
  tokens :: "string option list"
  input_file :: "string option"
  output_file :: "string option"
  append_output :: bool

definition redirect_step :: "nat \<Rightarrow> parsed \<Rightarrow> parsed option" where
  "redirect_step i p =
     (case read_slot (tokens p) i of
        None \<Rightarrow> None
      | Some None \<Rightarrow> None
      | Some (Some t) \<Rightarrow>
          if t = ''<'' then
            (case read_slot (tokens p) (i + 1) of
               None \<Rightarrow> None
             | Some nxt \<Rightarrow> Some (p\<lparr>input_file := nxt, tokens := (tokens p)[i := None]\<rparr>))
          else if t = ''>'' then
            (case read_slot (tokens p) (i + 1) of
               None \<Rightarrow> None
             | Some nxt \<Rightarrow> Some (p\<lparr>output_file := nxt, tokens := (tokens p)[i := None]\<rparr>))
          else if t = ''>>'' then
            (case read_slot (tokens p) (i + 1) of
               None \<Rightarrow> None
             | Some nxt \<Rightarrow>
                 Some (p\<lparr>output_file := nxt, append_output := True,
                         tokens := (tokens p)[i := None]\<rparr>))
          else Some p)"

function redirect_loop :: "nat \<Rightarrow> nat \<Rightarrow> parsed \<Rightarrow> parsed option" where
  "redirect_loop i token_count p =
     (if i < token_count then
        (case redirect_step i p of
           None \<Rightarrow> None
         | Some p1 \<Rightarrow> redirect_loop (Suc i) token_count p1)
      else Some p)"
  by pat_completeness auto
termination
  by (relation "measure (\<lambda>(i, token_count, p). token_count - i)") auto

declare redirect_loop.simps [simp del]

text \<open>
  Lines 303 to 330 on a token list: the array gets the tokens and a null pointer
  (which needs \<^verbatim>\<open>token_count < MAX_INPUT_SIZE\<close> cells, else the write of line 308 or
  311 is outside the array), then the redirection loop runs over it.
\<close>

definition parse_tokens :: "string list \<Rightarrow> parsed option" where
  "parse_tokens toks =
     (if MAX_INPUT_SIZE \<le> length toks then None
      else redirect_loop 0 (length toks)
             \<lparr>tokens = map Some toks @ [None], input_file = None, output_file = None,
              append_output = False\<rparr>)"

text \<open>
  Lines 332 to 343: the custom strategy on the token count and the array, then the
  built-in one on \<^verbatim>\<open>tokens[0]\<close>, then the external one on the array and the
  redirections. Each of the first two ends the dispatch only when it returns
  \<^verbatim>\<open>SHELL_OK\<close>; any other status goes on to the next strategy.
\<close>

definition dispatch_command :: "env \<Rightarrow> ctx_ptr \<Rightarrow> nat \<Rightarrow> parsed \<Rightarrow> sys \<Rightarrow> result \<times> sys" where
  "dispatch_command env ctx token_count p s =
     (let (r1, s1) = shell_execute_custom env ctx token_count (Some (tokens p)) s
      in if r1 = Return SHELL_OK then (Return SHELL_OK, s1)
         else if \<not> returned r1 then (r1, s1)
         else
           (case read_slot (tokens p) 0 of
              None \<Rightarrow> (Fault, s1)
            | Some t0 \<Rightarrow>
               let (r2, s2) = shell_execute_builtin env ctx t0 s1
               in if r2 = Return SHELL_OK then (Return SHELL_OK, s2)
                  else if \<not> returned r2 then (r2, s2)
                  else shell_execute_external env ctx (Some (tokens p)) (input_file p)
                         (output_file p) (append_output p) s2))"

text \<open>
  \<^verbatim>\<open>shell_execute_command\<close>: tokenise, take the redirections out, dispatch.
\<close>

definition shell_execute_command :: "env \<Rightarrow> ctx_ptr \<Rightarrow> string option \<Rightarrow> sys \<Rightarrow> result \<times> sys" where
  "shell_execute_command env ctx command_arg s =
     (if ctx = NULL \<or> command_arg = None then (Return SHELL_ERROR_NULL_POINTER, s)
      else
        let toks = strtok_loop (the command_arg) in
        (case parse_tokens toks of
           None \<Rightarrow> (Fault, s)
         | Some p \<Rightarrow> dispatch_command env ctx (length toks) p s))"

section \<open>Sessions\<close>

text \<open>
  A client of the library initialises a context and then calls the library any number
  of times. The memory the context occupies before \<^verbatim>\<open>shell_init\<close> is arbitrary. A
  session ends at the first call that does not return.
\<close>

datatype api_call =
    Call_register_command "string option" "CommandCallback option"
  | Call_add_job int "string option"
  | Call_update_jobs
  | Call_execute_custom nat "string option list option"
  | Call_execute_builtin "string option"
  | Call_execute_external "string option list option" "string option" "string option" bool
  | Call_execute_command "string option"

fun api_step :: "env \<Rightarrow> api_call \<Rightarrow> sys \<Rightarrow> result \<times> sys" where
  "api_step env (Call_register_command n cb) s = shell_register_command env Ctx n cb s"
| "api_step env (Call_add_job p c) s = shell_add_job env Ctx p c s"
| "api_step env Call_update_jobs s = shell_update_jobs env Ctx s"
| "api_step env (Call_execute_custom argc argv) s = shell_execute_custom env Ctx argc argv s"
| "api_step env (Call_execute_builtin c) s = shell_execute_builtin env Ctx c s"
| "api_step env (Call_execute_external argv i out a) s = shell_execute_external env Ctx argv i out a s"
| "api_step env (Call_execute_command c) s = shell_execute_command env Ctx c s"

fun run_calls :: "env \<Rightarrow> api_call list \<Rightarrow> sys \<Rightarrow> result list \<times> sys" where
  "run_calls env [] s = ([], s)"
| "run_calls env (c # cs) s =
     (let (r, s1) = api_step env c s
      in if returned r
         then (let (rs, s2) = run_calls env cs s1 in (r # rs, s2))
         else ([r], s1))"

definition session :: "env \<Rightarrow> string option \<Rightarrow> bool \<Rightarrow> api_call list \<Rightarrow> sys \<Rightarrow> result list \<times> sys" where
  "session env prompt_arg interactive_arg calls s0 =
     run_calls env calls (snd (shell_init env Ctx prompt_arg interactive_arg s0))"

text \<open>
  A concrete machine for the examples: memory with nothing in it, and a system where
  every allocation and every spawn succeeds (the child's process identifier is the
  number of events so far) and no child has exited yet.
\<close>

definition blank_base :: ShellContext where
  "blank_base =
     \<lparr>input = None, output' = None, error = None, history = (\<lambda>i. None), history_count = 0,
      env_vars = (\<lambda>i. None), env_vars_count = 0, child_pid = 0, signal_mask = {},
      last_error = SHELL_OK, prompt = None, interactive = False\<rparr>"

definition blank_sys :: sys where
  "blank_sys =
     \<lparr>mem = \<lparr>base = blank_base,
             custom_commands = (\<lambda>i. \<lparr>name = None, callback = None\<rparr>),
             custom_command_count = 0,
             jobs = (\<lambda>i. \<lparr>pid = 0, command = None, running = False\<rparr>),
             job_count = 0,
             aliases = (\<lambda>i. \<lparr>alias_name = None, alias_value = None\<rparr>),
             alias_count = 0\<rparr>,
      trace = []\<rparr>"

definition calm_env :: env where
  "calm_env =
     \<lparr>strdup_ok = (\<lambda>t. True), sigprocmask_result = (\<lambda>t. 0), waitpid_result = (\<lambda>t. 0),
      posix_spawnp_result = (\<lambda>t. (0, int (length t)))\<rparr>"

section \<open>Observations and example machines\<close>

text \<open>
  The calls of \<^verbatim>\<open>posix_spawnp\<close> and of \<^verbatim>\<open>waitpid\<close> in a trace, in order.
\<close>

fun spawn_requests :: "event list \<Rightarrow> spawn_request list" where
  "spawn_requests [] = []"
| "spawn_requests (Ev_posix_spawnp r # es) = r # spawn_requests es"
| "spawn_requests (e # es) = spawn_requests es"

fun waitpid_calls :: "event list \<Rightarrow> int list" where
  "waitpid_calls [] = []"
| "waitpid_calls (Ev_waitpid p # es) = p # waitpid_calls es"
| "waitpid_calls (e # es) = waitpid_calls es"

text \<open>
  The redirection operators, and what the redirection loop computes, as a recursion
  over the token list: an operator takes the token after it (none after the last
  token) as its path, and its own slot in the array becomes a null pointer.
\<close>

definition is_redirection :: "string \<Rightarrow> bool" where
  "is_redirection t \<longleftrightarrow> t = ''<'' \<or> t = ''>'' \<or> t = ''>>''"

fun next_token :: "string list \<Rightarrow> string option" where
  "next_token [] = None"
| "next_token (t # ts) = Some t"

fun scan_redirections ::
    "string list \<Rightarrow> string option \<times> string option \<times> bool \<Rightarrow> string option \<times> string option \<times> bool" where
  "scan_redirections [] acc = acc"
| "scan_redirections (t # ts) (inp, out, app) =
     scan_redirections ts
       (if t = ''<'' then (next_token ts, out, app)
        else if t = ''>'' then (inp, next_token ts, app)
        else if t = ''>>'' then (inp, next_token ts, True)
        else (inp, out, app))"

definition blank_slot :: "string \<Rightarrow> string option" where
  "blank_slot t = (if is_redirection t then None else Some t)"

text \<open>
  The argument list the specification describes: every redirection operator and the
  token after it taken out of the token list. This definition follows the words of
  the specification, not the code; it is what the code is compared with.
\<close>

fun spec_strip_redirections :: "string list \<Rightarrow> string list" where
  "spec_strip_redirections [] = []"
| "spec_strip_redirections [t] = (if is_redirection t then [] else [t])"
| "spec_strip_redirections (t # f # ts) =
     (if is_redirection t then spec_strip_redirections ts else t # spec_strip_redirections (f # ts))"

text \<open>
  What every library call but \<^verbatim>\<open>shell_register_command\<close> leaves alone: the
  registry and its count; and the job count stays within the table.
\<close>

definition frame :: "sys \<Rightarrow> sys \<Rightarrow> bool" where
  "frame s t \<longleftrightarrow>
     custom_commands (mem t) = custom_commands (mem s) \<and>
     custom_command_count (mem t) = custom_command_count (mem s) \<and>
     (job_count (mem s) \<le> MAX_JOBS \<longrightarrow> job_count (mem t) \<le> MAX_JOBS)"

text \<open>
  A registry is in order when every entry below the count has a name and a callback.
  The successful registrations of a session are the calls of
  \<^verbatim>\<open>shell_register_command\<close> that returned \<^verbatim>\<open>SHELL_OK\<close>.
\<close>

definition registry_ok :: "sys \<Rightarrow> bool" where
  "registry_ok s \<longleftrightarrow>
     (\<forall>i<custom_command_count (mem s).
        name (custom_commands (mem s) i) \<noteq> None \<and> callback (custom_commands (mem s) i) \<noteq> None)"

fun registrations_ok :: "api_call list \<Rightarrow> result list \<Rightarrow> nat" where
  "registrations_ok (Call_register_command n cb # cs) (r # rs) =
     (if r = Return SHELL_OK then 1 else 0) + registrations_ok cs rs"
| "registrations_ok (c # cs) (r # rs) = registrations_ok cs rs"
| "registrations_ok cs rs = 0"

definition register_call :: "string \<times> CommandCallback \<Rightarrow> api_call" where
  "register_call nc = Call_register_command (Some (fst nc)) (Some (snd nc))"

text \<open>
  Two callbacks: the one of \<^verbatim>\<open>Hello_World_Example.c\<close>, which returns \<^verbatim>\<open>SHELL_OK\<close>
  (its printing is not modelled), and one that reports a failure of its own.
\<close>

definition hello_callback :: CommandCallback where
  "hello_callback b argc argv = (SHELL_OK, b)"

definition failing_callback :: CommandCallback where
  "failing_callback b argc argv = (SHELL_ERROR_EXECUTION_FAILED, b)"

text \<open>
  Example sessions: a fresh context; one with the command \<^verbatim>\<open>echo2\<close> registered; one
  with a failing command \<^verbatim>\<open>foo\<close>; one with fifty commands \<^verbatim>\<open>a\<close>, \<^verbatim>\<open>aa\<close>, ...
\<close>

definition init_sys :: sys where
  "init_sys = snd (session calm_env None False [] blank_sys)"

definition echo2_sys :: sys where
  "echo2_sys = snd (session calm_env None False
      [Call_register_command (Some ''echo2'') (Some hello_callback)] blank_sys)"

definition foo_sys :: sys where
  "foo_sys = snd (session calm_env None False
      [Call_register_command (Some ''foo'') (Some failing_callback)] blank_sys)"

definition fifty_commands :: "(string \<times> CommandCallback) list" where
  "fifty_commands = map (\<lambda>k. (replicate (Suc k) CHR ''a'', hello_callback)) [0 ..< 50]"

definition fifty_calls :: "api_call list" where
  "fifty_calls = map register_call fifty_commands"

definition fifty_sys :: sys where
  "fifty_sys = snd (session calm_env None False fifty_calls blank_sys)"

text \<open>
  A system where every child has exited when it is asked about; a session that ran
  three external commands and polled once; a session that filled the job table.
\<close>

definition exited_env :: env where
  "exited_env =
     \<lparr>strdup_ok = (\<lambda>t. True), sigprocmask_result = (\<lambda>t. 0), waitpid_result = (\<lambda>t. 1),
      posix_spawnp_result = (\<lambda>t. (0, int (length t)))\<rparr>"

definition settled_sys :: sys where
  "settled_sys = snd (session exited_env None False
      [Call_execute_command (Some ''sleep 1''), Call_execute_command (Some ''ls -l''),
       Call_execute_command (Some ''cat < in.txt''), Call_update_jobs] blank_sys)"

definition full_table_sys :: sys where
  "full_table_sys =
     snd (session calm_env None False (replicate 100 (Call_add_job 7 (Some ''sleep''))) blank_sys)"

section \<open>Basic facts\<close>

lemma spawn_requests_append [simp]:
  "spawn_requests (xs @ ys) = spawn_requests xs @ spawn_requests ys"
  by (induction xs rule: spawn_requests.induct) simp_all

lemma waitpid_calls_append [simp]:
  "waitpid_calls (xs @ ys) = waitpid_calls xs @ waitpid_calls ys"
  by (induction xs rule: waitpid_calls.induct) simp_all

lemma trace_set_last_error [simp]: "trace (set_last_error e s) = trace s"
  by (simp add: set_last_error_def)

lemma trace_log_event [simp]: "trace (log_event e s) = trace s @ [e]"
  by (simp add: log_event_def)

lemma mem_log_event [simp]: "mem (log_event e s) = mem s"
  by (simp add: log_event_def)

lemma jobs_set_last_error [simp]:
  "jobs (mem (set_last_error e s)) = jobs (mem s)"
  "job_count (mem (set_last_error e s)) = job_count (mem s)"
  "custom_commands (mem (set_last_error e s)) = custom_commands (mem s)"
  "custom_command_count (mem (set_last_error e s)) = custom_command_count (mem s)"
  "last_error (base (mem (set_last_error e s))) = e"
  by (simp_all add: set_last_error_def)

lemma shell_add_job_full:
  "MAX_JOBS \<le> job_count (mem s) \<Longrightarrow>
   shell_add_job env Ctx p c s =
     (if c = None then (Return SHELL_ERROR_NULL_POINTER, s)
      else (Return SHELL_ERROR_JOB_CONTROL_FULL, set_last_error SHELL_ERROR_JOB_CONTROL_FULL s))"
  by (simp add: shell_add_job_def)

section \<open>What the calls leave alone\<close>

lemma frame_refl [simp]: "frame s s"
  by (simp add: frame_def)

lemma frame_trans: "frame s t \<Longrightarrow> frame t u \<Longrightarrow> frame s u"
  by (simp add: frame_def)

lemma frame_set_last_error [simp]: "frame s (set_last_error e s)"
  by (simp add: frame_def)

lemma frame_log_event [simp]: "frame s (log_event e s)"
  by (simp add: frame_def)

lemma frame_add_job: "frame s (snd (shell_add_job env ctx p c s))"
  by (simp add: shell_add_job_def frame_def strdup_def Let_def)

lemma frame_update_jobs_loop: "frame s (update_jobs_loop env i s)"
proof (induction env i s rule: update_jobs_loop.induct)
  case (1 env i s)
  have "frame s (update_job env i s)"
    by (simp add: frame_def update_job_def Let_def)
  with 1 show ?case
    by (auto simp: update_jobs_loop.simps [of env i s] intro: frame_trans)
qed

lemma frame_update_jobs: "frame s (snd (shell_update_jobs env ctx s))"
  by (simp add: shell_update_jobs_def frame_update_jobs_loop)

lemma frame_custom_loop: "frame s (snd (custom_loop i argc argv s))"
proof (induction i argc argv s rule: custom_loop.induct)
  case (1 i argc argv s)
  show ?case
    using 1
    by (subst custom_loop.simps)
       (auto simp: frame_def call_custom_def Let_def split: option.splits prod.splits)
qed

lemma frame_custom: "frame s (snd (shell_execute_custom env ctx argc argv s))"
  by (simp add: shell_execute_custom_def frame_custom_loop)

lemma frame_builtin: "frame s (snd (shell_execute_builtin env ctx c s))"
proof -
  have "frame s (print_history s)" by (simp add: frame_def print_history_def)
  moreover have "frame s (print_jobs (snd (shell_update_jobs env ctx s)))"
    using frame_update_jobs [of s env ctx] by (simp add: frame_def print_jobs_def)
  ultimately show ?thesis by (simp add: shell_execute_builtin_def)
qed

lemma frame_external: "frame s (snd (shell_execute_external env ctx argv inp out app s))"
proof -
  have "\<And>e p c. frame s (snd (shell_add_job env ctx p c (log_event e s)))"
    using frame_add_job frame_log_event frame_trans by blast
  moreover have "\<And>e e'. frame s (set_last_error e' (log_event e s))"
    by (simp add: frame_def)
  ultimately show ?thesis
    by (simp add: shell_execute_external_def Let_def split: option.splits prod.splits)
qed

lemma frame_dispatch: "frame s (snd (dispatch_command env ctx n p s))"
proof -
  have a: "\<And>argc argv r1 s1. shell_execute_custom env ctx argc argv s = (r1, s1) \<Longrightarrow> frame s s1"
    using frame_custom by (metis snd_conv)
  have b: "\<And>c s1 r2 s2. shell_execute_builtin env ctx c s1 = (r2, s2) \<Longrightarrow> frame s1 s2"
    using frame_builtin by (metis snd_conv)
  show ?thesis
    unfolding dispatch_command_def Let_def
    by (auto split: option.splits prod.splits dest!: a b intro: frame_trans frame_external)
qed

lemma frame_command: "frame s (snd (shell_execute_command env ctx c s))"
  by (simp add: shell_execute_command_def Let_def frame_dispatch split: option.splits)

lemma frame_api_step:
  "(\<forall>n cb. c \<noteq> Call_register_command n cb) \<Longrightarrow> frame s (snd (api_step env c s))"
  by (cases c)
     (simp_all add: frame_add_job frame_update_jobs frame_custom frame_builtin
        frame_external frame_command)

lemma job_count_register:
  "job_count (mem (snd (shell_register_command env ctx n cb s))) = job_count (mem s)"
  by (simp add: shell_register_command_def strdup_def Let_def)

lemma job_bound_api_step:
  assumes "job_count (mem s) \<le> MAX_JOBS"
  shows "job_count (mem (snd (api_step env c s))) \<le> MAX_JOBS"
proof (cases "\<exists>n cb. c = Call_register_command n cb")
  case True
  with assms show ?thesis by (auto simp: job_count_register)
next
  case False
  then have "frame s (snd (api_step env c s))" by (simp add: frame_api_step)
  with assms show ?thesis by (simp add: frame_def)
qed

lemma job_bound_run_calls:
  "job_count (mem s) \<le> MAX_JOBS \<Longrightarrow> job_count (mem (snd (run_calls env cs s))) \<le> MAX_JOBS"
proof (induction cs arbitrary: s)
  case Nil
  then show ?case by simp
next
  case (Cons c cs)
  from Cons.prems have "job_count (mem (snd (api_step env c s))) \<le> MAX_JOBS"
    by (rule job_bound_api_step)
  then have "job_count (mem (snd (run_calls env cs (snd (api_step env c s))))) \<le> MAX_JOBS"
    by (rule Cons.IH)
  then show ?case
    using \<open>job_count (mem (snd (api_step env c s))) \<le> MAX_JOBS\<close>
    by (simp add: Let_def case_prod_beta)
qed

lemma job_count_init:
  "job_count (mem (snd (shell_init env Ctx p ia s))) = 0"
  "custom_command_count (mem (snd (shell_init env Ctx p ia s))) = 0"
  by (simp_all add: shell_init_def strdup_def Let_def set_last_error_def)

lemma job_count_add_job:
  "job_count (mem s) < MAX_JOBS \<Longrightarrow>
   shell_add_job env Ctx p (Some c) s = (r, t) \<Longrightarrow> r = Return SHELL_OK \<and> job_count (mem t) = Suc (job_count (mem s))"
  by (auto simp add: shell_add_job_def strdup_def Let_def)

lemma run_add_jobs:
  "job_count (mem s) + n \<le> MAX_JOBS \<Longrightarrow>
   job_count (mem (snd (run_calls env (replicate n (Call_add_job p (Some c))) s))) = job_count (mem s) + n"
proof (induction n arbitrary: s)
  case 0
  then show ?case by simp
next
  case (Suc n)
  obtain r t where step: "shell_add_job env Ctx p (Some c) s = (r, t)" by (cases "shell_add_job env Ctx p (Some c) s")
  with Suc.prems have rt: "r = Return SHELL_OK" "job_count (mem t) = Suc (job_count (mem s))"
    using job_count_add_job [of s env p c r t] by simp_all
  with Suc.prems have "job_count (mem (snd (run_calls env (replicate n (Call_add_job p (Some c))) t))) = job_count (mem t) + n"
    by (intro Suc.IH) simp
  with step rt show ?case by (simp add: case_prod_beta)
qed

lemma full_table_sys_count: "job_count (mem full_table_sys) = MAX_JOBS"
  by (simp add: full_table_sys_def session_def run_add_jobs job_count_init MAX_JOBS_def)

section \<open>The external executor\<close>

text \<open>
  Claim C8. When the job table is full and \<^verbatim>\<open>posix_spawnp\<close> succeeded (status 0),
  \<^verbatim>\<open>shell_execute_external\<close> returns \<^verbatim>\<open>SHELL_OK\<close> although its call of
  \<^verbatim>\<open>shell_add_job\<close> returned \<^verbatim>\<open>SHELL_ERROR_JOB_CONTROL_FULL\<close>. The only event it adds
  to the trace is the spawn itself: no \<^verbatim>\<open>waitpid\<close>, so the child is not reaped (and the
  library has no call that kills). The job entries and the job count stay as they were.
\<close>

theorem external_success_when_job_table_full:
  assumes full: "MAX_JOBS \<le> job_count (mem s)"
    and req: "req = \<lparr>sp_file = Some a0, sp_argv = argv_strings (Some a0 # rest),
                    sp_file_actions = redirect_actions inp out app,
                    sp_flags = {POSIX_SPAWN_SETSIGMASK, POSIX_SPAWN_SETSIGDEF},
                    sp_sigmask = signal_mask (base (mem s))\<rparr>"
    and spawned: "posix_spawnp_result env (trace s @ [Ev_posix_spawnp req]) = (0, child)"
  shows "fst (shell_add_job env Ctx child (Some a0) (log_event (Ev_posix_spawnp req) s))
           = Return SHELL_ERROR_JOB_CONTROL_FULL \<and>
         fst (shell_execute_external env Ctx (Some (Some a0 # rest)) inp out app s) = Return SHELL_OK \<and>
         trace (snd (shell_execute_external env Ctx (Some (Some a0 # rest)) inp out app s))
           = trace s @ [Ev_posix_spawnp req] \<and>
         jobs (mem (snd (shell_execute_external env Ctx (Some (Some a0 # rest)) inp out app s)))
           = jobs (mem s) \<and>
         job_count (mem (snd (shell_execute_external env Ctx (Some (Some a0 # rest)) inp out app s)))
           = job_count (mem s)"
proof -
  let ?s1 = "log_event (Ev_posix_spawnp req) s"
  from full have full1: "MAX_JOBS \<le> job_count (mem ?s1)" by simp
  then have add: "shell_add_job env Ctx child (Some a0) ?s1 =
      (Return SHELL_ERROR_JOB_CONTROL_FULL, set_last_error SHELL_ERROR_JOB_CONTROL_FULL ?s1)"
    by (simp add: shell_add_job_full)
  have "shell_execute_external env Ctx (Some (Some a0 # rest)) inp out app s =
      (Return SHELL_OK, snd (shell_add_job env Ctx child (Some a0) ?s1))"
    using spawned unfolding req
    by (simp add: shell_execute_external_def read_slot_def Let_def)
  with add have "shell_execute_external env Ctx (Some (Some a0 # rest)) inp out app s =
      (Return SHELL_OK, set_last_error SHELL_ERROR_JOB_CONTROL_FULL ?s1)"
    by simp
  with add show ?thesis by simp
qed

theorem external_success_when_job_table_full_witness:
  "MAX_JOBS \<le> job_count (mem full_table_sys) \<and>
   fst (shell_execute_external calm_env Ctx (Some [Some ''ls'', Some ''-l'', None]) None (Some ''out.txt'') False
          full_table_sys) = Return SHELL_OK \<and>
   job_count (mem (snd (shell_execute_external calm_env Ctx (Some [Some ''ls'', Some ''-l'', None]) None
          (Some ''out.txt'') False full_table_sys))) = job_count (mem full_table_sys) \<and>
   waitpid_calls (trace (snd (shell_execute_external calm_env Ctx (Some [Some ''ls'', Some ''-l'', None]) None
          (Some ''out.txt'') False full_table_sys))) = waitpid_calls (trace full_table_sys)"
  using external_success_when_job_table_full
    [of full_table_sys _ "''ls''" "[Some ''-l'', None]" None "Some ''out.txt''" False calm_env, OF _ refl]
    full_table_sys_count
  by (simp add: calm_env_def)

lemma trace_shell_add_job:
  "spawn_requests (trace (snd (shell_add_job env ctx p c s))) = spawn_requests (trace s)"
  by (simp add: shell_add_job_def strdup_def Let_def split: prod.splits)

lemma redirect_actions_stdin:
  "filter (\<lambda>a. fa_fd a = STDIN_FILENO) (redirect_actions inp out app) =
     (case inp of None \<Rightarrow> []
      | Some f \<Rightarrow> [\<lparr>fa_fd = STDIN_FILENO, fa_path = f, fa_oflag = {O_RDONLY}, fa_mode = 0\<rparr>])"
  by (simp add: redirect_actions_def STDIN_FILENO_def STDOUT_FILENO_def split: option.splits)

lemma redirect_actions_stdout:
  "filter (\<lambda>a. fa_fd a = STDOUT_FILENO) (redirect_actions inp out app) =
     (case out of None \<Rightarrow> []
      | Some f \<Rightarrow> [\<lparr>fa_fd = STDOUT_FILENO, fa_path = f,
           fa_oflag = (if app then {O_WRONLY, O_CREAT, O_APPEND} else {O_WRONLY, O_CREAT, O_TRUNC}),
           fa_mode = 420\<rparr>])"
  by (auto simp add: redirect_actions_def STDIN_FILENO_def STDOUT_FILENO_def split: option.splits)

lemma redirect_actions_fds:
  "a \<in> set (redirect_actions inp out app) \<Longrightarrow> fa_fd a = STDIN_FILENO \<or> fa_fd a = STDOUT_FILENO"
  by (auto simp add: redirect_actions_def split: option.splits)

lemma spawn_requests_external:
  "cells \<noteq> [] \<Longrightarrow>
   spawn_requests (trace (snd (shell_execute_external env Ctx (Some cells) inp out app s))) =
     spawn_requests (trace s) @
       [\<lparr>sp_file = hd cells, sp_argv = argv_strings cells,
         sp_file_actions = redirect_actions inp out app,
         sp_flags = {POSIX_SPAWN_SETSIGMASK, POSIX_SPAWN_SETSIGDEF},
         sp_sigmask = signal_mask (base (mem s))\<rparr>]"
  by (cases cells)
     (simp_all add: shell_execute_external_def read_slot_def Let_def trace_shell_add_job
        split: prod.splits)

text \<open>
  Claim C9. Every call of \<^verbatim>\<open>shell_execute_external\<close> on an argument vector makes one
  \<^verbatim>\<open>posix_spawnp\<close> request. Its file actions on standard input are: none when the
  input path is null, else one open of that path with \<^verbatim>\<open>O_RDONLY\<close>. Its file actions
  on standard output are: none when the output path is null, else one open of that
  path with \<^verbatim>\<open>O_WRONLY | O_CREAT\<close> and \<^verbatim>\<open>O_APPEND\<close> when the append flag is set,
  \<^verbatim>\<open>O_TRUNC\<close> when it is not, mode 0644. There are no other file actions.
\<close>

theorem external_file_actions:
  assumes "cells \<noteq> []"
  shows "\<exists>req. spawn_requests (trace (snd (shell_execute_external env Ctx (Some cells) inp out app s)))
            = spawn_requests (trace s) @ [req] \<and>
          filter (\<lambda>a. fa_fd a = STDIN_FILENO) (sp_file_actions req) =
            (case inp of None \<Rightarrow> []
             | Some f \<Rightarrow> [\<lparr>fa_fd = STDIN_FILENO, fa_path = f, fa_oflag = {O_RDONLY}, fa_mode = 0\<rparr>]) \<and>
          filter (\<lambda>a. fa_fd a = STDOUT_FILENO) (sp_file_actions req) =
            (case out of None \<Rightarrow> []
             | Some f \<Rightarrow> [\<lparr>fa_fd = STDOUT_FILENO, fa_path = f,
                  fa_oflag = (if app then {O_WRONLY, O_CREAT, O_APPEND} else {O_WRONLY, O_CREAT, O_TRUNC}),
                  fa_mode = 420\<rparr>]) \<and>
          (\<forall>a \<in> set (sp_file_actions req). fa_fd a = STDIN_FILENO \<or> fa_fd a = STDOUT_FILENO)"
  using spawn_requests_external [OF assms, of env inp out app s]
    redirect_actions_stdin [of inp out app] redirect_actions_stdout [of inp out app]
    redirect_actions_fds [of _ inp out app]
  by (intro exI [of _ "\<lparr>sp_file = hd cells, sp_argv = argv_strings cells,
         sp_file_actions = redirect_actions inp out app,
         sp_flags = {POSIX_SPAWN_SETSIGMASK, POSIX_SPAWN_SETSIGDEF},
         sp_sigmask = signal_mask (base (mem s))\<rparr>"]) auto

theorem external_file_actions_witness:
  "[Some ''cat''] \<noteq> [] \<and>
   spawn_requests (trace (snd (shell_execute_external calm_env Ctx (Some [Some ''cat'', None])
       (Some ''in.txt'') (Some ''out.txt'') True blank_sys))) =
     [\<lparr>sp_file = Some ''cat'', sp_argv = [''cat''],
       sp_file_actions =
         [\<lparr>fa_fd = 0, fa_path = ''in.txt'', fa_oflag = {O_RDONLY}, fa_mode = 0\<rparr>,
          \<lparr>fa_fd = 1, fa_path = ''out.txt'', fa_oflag = {O_WRONLY, O_CREAT, O_APPEND}, fa_mode = 420\<rparr>],
       sp_flags = {POSIX_SPAWN_SETSIGMASK, POSIX_SPAWN_SETSIGDEF}, sp_sigmask = {}\<rparr>] \<and>
   spawn_requests (trace (snd (shell_execute_external calm_env Ctx (Some [Some ''ls'', Some ''-l'', None])
       None (Some ''output.txt'') False blank_sys))) =
     [\<lparr>sp_file = Some ''ls'', sp_argv = [''ls'', ''-l''],
       sp_file_actions =
         [\<lparr>fa_fd = 1, fa_path = ''output.txt'', fa_oflag = {O_WRONLY, O_CREAT, O_TRUNC}, fa_mode = 420\<rparr>],
       sp_flags = {POSIX_SPAWN_SETSIGMASK, POSIX_SPAWN_SETSIGDEF}, sp_sigmask = {}\<rparr>]"
  using external_file_actions [of "[Some ''cat'', None]" calm_env "Some ''in.txt''" "Some ''out.txt''" True blank_sys]
    external_file_actions [of "[Some ''ls'', Some ''-l'', None]" calm_env None "Some ''output.txt''" False blank_sys]
  by (simp add: spawn_requests_external argv_strings_def redirect_actions_def blank_sys_def
        blank_base_def STDIN_FILENO_def STDOUT_FILENO_def insert_commute)

section \<open>Polling the job table\<close>

lemma jobs_update_job:
  "jobs (mem (update_job env i s)) k =
     (if k = i \<and> running (jobs (mem s) i) \<and>
         0 < waitpid_result env (trace s @ [Ev_waitpid (pid (jobs (mem s) i))])
      then (jobs (mem s) i)\<lparr>running := False\<rparr> else jobs (mem s) k)"
  by (simp add: update_job_def Let_def)

lemma update_job_settled: "\<not> running (jobs (mem s) i) \<Longrightarrow> update_job env i s = s"
  by (simp add: update_job_def)

lemma waitpid_calls_update_job:
  "waitpid_calls (trace (update_job env i s)) =
     waitpid_calls (trace s) @ (if running (jobs (mem s) i) then [pid (jobs (mem s) i)] else [])"
  by (simp add: update_job_def Let_def)

lemma loop_settled_unchanged:
  "\<not> running (jobs (mem s) k) \<Longrightarrow> jobs (mem (update_jobs_loop env i s)) k = jobs (mem s) k"
proof (induction env i s rule: update_jobs_loop.induct)
  case (1 env i s)
  show ?case
  proof (cases "i < job_count (mem s)")
    case True
    have "\<not> running (jobs (mem (update_job env i s)) k)"
      using "1.prems" by (simp add: jobs_update_job)
    with True "1.IH" have "jobs (mem (update_jobs_loop env (Suc i) (update_job env i s))) k
        = jobs (mem (update_job env i s)) k" by simp
    also have "\<dots> = jobs (mem s) k"
      using "1.prems" by (auto simp: jobs_update_job)
    finally show ?thesis using True by (simp add: update_jobs_loop.simps [of env i s])
  next
    case False
    then show ?thesis by (simp add: update_jobs_loop.simps [of env i s])
  qed
qed

lemma loop_job_count [simp]: "job_count (mem (update_jobs_loop env i s)) = job_count (mem s)"
proof (induction env i s rule: update_jobs_loop.induct)
  case (1 env i s)
  then show ?case by (simp add: update_jobs_loop.simps [of env i s])
qed

lemma loop_all_settled:
  "(\<forall>k<job_count (mem s). \<not> running (jobs (mem s) k)) \<Longrightarrow> update_jobs_loop env i s = s"
proof (induction env i s rule: update_jobs_loop.induct)
  case (1 env i s)
  show ?case
  proof (cases "i < job_count (mem s)")
    case True
    with "1.prems" have eq: "update_job env i s = s" by (simp add: update_job_settled)
    from True "1.IH" "1.prems" eq have "update_jobs_loop env (Suc i) s = s" by simp
    with True eq show ?thesis by (simp add: update_jobs_loop.simps [of env i s])
  next
    case False
    then show ?thesis by (simp add: update_jobs_loop.simps [of env i s])
  qed
qed

lemma loop_waitpid_calls:
  "waitpid_calls (trace (update_jobs_loop env i s)) =
     waitpid_calls (trace s) @
       map (\<lambda>k. pid (jobs (mem s) k))
         (filter (\<lambda>k. running (jobs (mem s) k)) [i ..< job_count (mem s)])"
proof (induction env i s rule: update_jobs_loop.induct)
  case (1 env i s)
  show ?case
  proof (cases "i < job_count (mem s)")
    case True
    let ?s1 = "update_job env i s"
    have later: "\<And>k. k \<in> set [Suc i ..< job_count (mem s)] \<Longrightarrow> jobs (mem ?s1) k = jobs (mem s) k"
      by (simp add: jobs_update_job)
    have "map (\<lambda>k. pid (jobs (mem ?s1) k))
            (filter (\<lambda>k. running (jobs (mem ?s1) k)) [Suc i ..< job_count (mem s)])
        = map (\<lambda>k. pid (jobs (mem s) k))
            (filter (\<lambda>k. running (jobs (mem s) k)) [Suc i ..< job_count (mem s)])"
      using later by (intro map_cong filter_cong) auto
    with True "1.IH" show ?thesis
      by (simp add: update_jobs_loop.simps [of env i s] waitpid_calls_update_job upt_conv_Cons)
  next
    case False
    then show ?thesis by (simp add: update_jobs_loop.simps [of env i s])
  qed
qed

lemma polls_settled:
  "(\<forall>k<job_count (mem s). \<not> running (jobs (mem s) k)) \<Longrightarrow>
   run_calls env (replicate n Call_update_jobs) s = (replicate n (Return SHELL_OK), s)"
  by (induction n) (simp_all add: shell_update_jobs_def loop_all_settled)

text \<open>
  Claim C7. A poll returns \<^verbatim>\<open>SHELL_OK\<close> and keeps the job count. A job whose running
  flag is false is left as it is, so no flag goes back to true; the \<^verbatim>\<open>waitpid\<close> calls
  of the poll are those of the jobs that were running, in table order, and no others.
  Once no job below the count is running, any number of further polls changes
  nothing at all: not the table, not the trace.
\<close>

theorem update_jobs_idempotent_on_settled:
  "fst (shell_update_jobs env Ctx s) = Return SHELL_OK \<and>
   job_count (mem (snd (shell_update_jobs env Ctx s))) = job_count (mem s) \<and>
   (\<forall>i. \<not> running (jobs (mem s) i) \<longrightarrow>
        jobs (mem (snd (shell_update_jobs env Ctx s))) i = jobs (mem s) i) \<and>
   waitpid_calls (trace (snd (shell_update_jobs env Ctx s))) =
     waitpid_calls (trace s) @
       map (\<lambda>i. pid (jobs (mem s) i))
         (filter (\<lambda>i. running (jobs (mem s) i)) [0 ..< job_count (mem s)]) \<and>
   ((\<forall>i<job_count (mem s). \<not> running (jobs (mem s) i)) \<longrightarrow>
      run_calls env (replicate n Call_update_jobs) s = (replicate n (Return SHELL_OK), s))"
proof (intro conjI allI impI)
  show "fst (shell_update_jobs env Ctx s) = Return SHELL_OK"
    by (simp add: shell_update_jobs_def)
  show "job_count (mem (snd (shell_update_jobs env Ctx s))) = job_count (mem s)"
    by (simp add: shell_update_jobs_def)
  show "waitpid_calls (trace (snd (shell_update_jobs env Ctx s))) =
     waitpid_calls (trace s) @
       map (\<lambda>i. pid (jobs (mem s) i))
         (filter (\<lambda>i. running (jobs (mem s) i)) [0 ..< job_count (mem s)])"
    by (simp add: shell_update_jobs_def loop_waitpid_calls)
next
  fix i
  assume "\<not> running (jobs (mem s) i)"
  then have "jobs (mem (update_jobs_loop env 0 s)) i = jobs (mem s) i"
    by (rule loop_settled_unchanged)
  then show "jobs (mem (snd (shell_update_jobs env Ctx s))) i = jobs (mem s) i"
    by (simp add: shell_update_jobs_def)
next
  assume "\<forall>i<job_count (mem s). \<not> running (jobs (mem s) i)"
  then show "run_calls env (replicate n Call_update_jobs) s = (replicate n (Return SHELL_OK), s)"
    by (rule polls_settled)
qed

theorem update_jobs_idempotent_on_settled_witness:
  "job_count (mem settled_sys) = 3 \<and>
   \<not> running (jobs (mem settled_sys) 0) \<and> \<not> running (jobs (mem settled_sys) 1) \<and>
   \<not> running (jobs (mem settled_sys) 2) \<and>
   run_calls exited_env (replicate 2 Call_update_jobs) settled_sys =
     ([Return SHELL_OK, Return SHELL_OK], settled_sys)"
proof -
  have c: "job_count (mem settled_sys) = 3"
    unfolding settled_sys_def by code_simp
  have r: "\<not> running (jobs (mem settled_sys) 0) \<and> \<not> running (jobs (mem settled_sys) 1) \<and>
      \<not> running (jobs (mem settled_sys) 2)"
    unfolding settled_sys_def by code_simp
  have "\<forall>i<job_count (mem settled_sys). \<not> running (jobs (mem settled_sys) i)"
    using c r by (auto simp: less_Suc_eq numeral_3_eq_3 numeral_2_eq_2)
  with update_jobs_idempotent_on_settled [of exited_env settled_sys 2] c r
  show ?thesis by (simp add: numeral_2_eq_2)
qed

section \<open>The job table's capacity\<close>

text \<open>
  Claim C5. In the state any session reaches, the job count is at most
  \<^verbatim>\<open>MAX_JOBS\<close>. Called on a full table with a command, \<^verbatim>\<open>shell_add_job\<close> returns
  \<^verbatim>\<open>SHELL_ERROR_JOB_CONTROL_FULL\<close> and writes the last-error field only: the job
  count, every job entry and the trace are as before. Whatever it is called with,
  \<^verbatim>\<open>shell_add_job\<close> keeps the count within the table.
\<close>

theorem job_table_never_exceeds_capacity:
  assumes "s = snd (session env p ia calls s0)"
  shows "job_count (mem s) \<le> MAX_JOBS \<and>
   (job_count (mem s) = MAX_JOBS \<longrightarrow>
      shell_add_job env Ctx child (Some c) s =
        (Return SHELL_ERROR_JOB_CONTROL_FULL, set_last_error SHELL_ERROR_JOB_CONTROL_FULL s) \<and>
      job_count (mem (snd (shell_add_job env Ctx child (Some c) s))) = MAX_JOBS \<and>
      jobs (mem (snd (shell_add_job env Ctx child (Some c) s))) = jobs (mem s) \<and>
      trace (snd (shell_add_job env Ctx child (Some c) s)) = trace s) \<and>
   job_count (mem (snd (shell_add_job env Ctx child' c' s))) \<le> MAX_JOBS"
proof (intro conjI impI)
  have "job_count (mem (snd (shell_init env Ctx p ia s0))) \<le> MAX_JOBS"
    by (simp add: job_count_init)
  then show bound: "job_count (mem s) \<le> MAX_JOBS"
    unfolding assms session_def by (rule job_bound_run_calls)
  have "frame s (snd (shell_add_job env Ctx child' c' s))" by (rule frame_add_job)
  with bound show "job_count (mem (snd (shell_add_job env Ctx child' c' s))) \<le> MAX_JOBS"
    by (simp add: frame_def)
next
  assume full: "job_count (mem s) = MAX_JOBS"
  then have eq: "shell_add_job env Ctx child (Some c) s =
      (Return SHELL_ERROR_JOB_CONTROL_FULL, set_last_error SHELL_ERROR_JOB_CONTROL_FULL s)"
    by (simp add: shell_add_job_full)
  then show "shell_add_job env Ctx child (Some c) s =
      (Return SHELL_ERROR_JOB_CONTROL_FULL, set_last_error SHELL_ERROR_JOB_CONTROL_FULL s)" .
  from eq full show "job_count (mem (snd (shell_add_job env Ctx child (Some c) s))) = MAX_JOBS"
    by simp
  from eq show "jobs (mem (snd (shell_add_job env Ctx child (Some c) s))) = jobs (mem s)"
    by simp
  from eq show "trace (snd (shell_add_job env Ctx child (Some c) s)) = trace s"
    by simp
qed

theorem job_table_never_exceeds_capacity_witness:
  "job_count (mem full_table_sys) = MAX_JOBS \<and>
   fst (shell_add_job calm_env Ctx 8 (Some ''ls'') full_table_sys) = Return SHELL_ERROR_JOB_CONTROL_FULL \<and>
   job_count (mem (snd (shell_add_job calm_env Ctx 8 (Some ''ls'') full_table_sys))) = MAX_JOBS \<and>
   jobs (mem (snd (shell_add_job calm_env Ctx 8 (Some ''ls'') full_table_sys))) = jobs (mem full_table_sys)"
  using job_table_never_exceeds_capacity
    [of full_table_sys calm_env None False "replicate 100 (Call_add_job 7 (Some ''sleep''))" blank_sys
        8 "''ls''"]
    full_table_sys_count
  by (simp add: full_table_sys_def)

section \<open>The custom command registry\<close>

lemma custom_loop_first_match:
  assumes "read_slot argv 0 = Some (Some cmd)"
    and "k < custom_command_count (mem s)"
    and "name (custom_commands (mem s) k) = Some cmd"
    and "callback (custom_commands (mem s) k) = Some cb"
    and "i \<le> k"
    and "\<forall>j. i \<le> j \<and> j < k \<longrightarrow> (\<exists>n. name (custom_commands (mem s) j) = Some n \<and> n \<noteq> cmd)"
  shows "custom_loop i argc argv s = call_custom k cb argc argv s"
  using assms(5,6)
proof (induction "k - i" arbitrary: i)
  case 0
  then have "i = k" by simp
  with assms(1-4) show ?case by (subst custom_loop.simps) simp
next
  case (Suc d)
  then have lt: "i < k" by simp
  with Suc.prems obtain n where n: "name (custom_commands (mem s) i) = Some n" "n \<noteq> cmd"
    by auto
  have "custom_loop (Suc i) argc argv s = call_custom k cb argc argv s"
    using Suc.hyps(2) Suc.prems lt by (intro Suc.hyps(1)) auto
  moreover have "custom_loop i argc argv s = custom_loop (Suc i) argc argv s"
    using lt assms(1,2) n by (subst custom_loop.simps) auto
  ultimately show ?case by simp
qed

lemma custom_loop_no_match:
  assumes "read_slot argv 0 = Some (Some cmd)"
    and "\<forall>j. i \<le> j \<and> j < custom_command_count (mem s) \<longrightarrow>
           (\<exists>n. name (custom_commands (mem s) j) = Some n \<and> n \<noteq> cmd)"
  shows "custom_loop i argc argv s =
     (Return SHELL_ERROR_COMMAND_NOT_FOUND, set_last_error SHELL_ERROR_COMMAND_NOT_FOUND s)"
  using assms(2)
proof (induction "custom_command_count (mem s) - i" arbitrary: i)
  case 0
  then show ?case by (subst custom_loop.simps) simp
next
  case (Suc d)
  then have lt: "i < custom_command_count (mem s)" by simp
  with Suc.prems obtain n where n: "name (custom_commands (mem s) i) = Some n" "n \<noteq> cmd"
    by auto
  have "custom_loop (Suc i) argc argv s =
     (Return SHELL_ERROR_COMMAND_NOT_FOUND, set_last_error SHELL_ERROR_COMMAND_NOT_FOUND s)"
    using Suc.hyps(2) Suc.prems by (intro Suc.hyps(1)) auto
  moreover have "custom_loop i argc argv s = custom_loop (Suc i) argc argv s"
    using lt assms(1) n by (subst custom_loop.simps) auto
  ultimately show ?case by simp
qed

lemma register_effect:
  assumes "shell_register_command env Ctx n cb s = (r, t)"
  shows "custom_command_count (mem t) =
           custom_command_count (mem s) + (if r = Return SHELL_OK then 1 else 0)"
    and "registry_ok s \<Longrightarrow> registry_ok t"
    and "custom_command_count (mem t) \<le> max (custom_command_count (mem s)) MAX_CUSTOM_COMMANDS"
  using assms
  by (auto simp: shell_register_command_def strdup_def Let_def registry_ok_def
        set_last_error_def log_event_def less_Suc_eq split: if_splits)

lemma frame_registry:
  "frame s t \<Longrightarrow> custom_command_count (mem t) = custom_command_count (mem s) \<and>
     (registry_ok s \<longrightarrow> registry_ok t)"
  by (simp add: frame_def registry_ok_def)

lemma api_step_registry:
  assumes "api_step env c s = (r, t)"
  shows "custom_command_count (mem t) = custom_command_count (mem s) + registrations_ok [c] [r] \<and>
         (registry_ok s \<longrightarrow> registry_ok t)"
proof (cases "\<exists>n cb. c = Call_register_command n cb")
  case True
  then show ?thesis using assms register_effect [of env _ _ s r t] by auto
next
  case False
  then have "frame s (snd (api_step env c s))" by (simp add: frame_api_step)
  with assms have "frame s t" by simp
  moreover from False have "registrations_ok [c] [r] = 0" by (cases c) auto
  ultimately show ?thesis using frame_registry by simp
qed

lemma registrations_ok_Cons:
  "registrations_ok (c # cs) (r # rs) = registrations_ok [c] [r] + registrations_ok cs rs"
  by (cases c) auto

lemma registrations_ok_Nil [simp]: "registrations_ok cs [] = 0"
  by (cases cs) auto

lemma run_calls_registry:
  "run_calls env cs s = (rs, t) \<Longrightarrow>
   custom_command_count (mem t) = custom_command_count (mem s) + registrations_ok cs rs \<and>
   (registry_ok s \<longrightarrow> registry_ok t)"
proof (induction cs arbitrary: s rs t)
  case Nil
  then show ?case by simp
next
  case (Cons c cs)
  obtain r s1 where step: "api_step env c s = (r, s1)" by (cases "api_step env c s")
  note a = api_step_registry [OF step]
  show ?case
  proof (cases "returned r")
    case True
    obtain rs' t' where rest: "run_calls env cs s1 = (rs', t')" by (cases "run_calls env cs s1")
    with Cons.prems step True have eq: "rs = r # rs'" "t = t'" by simp_all
    from Cons.IH [OF rest] a eq show ?thesis
      by (simp add: registrations_ok_Cons [of c cs r rs'])
  next
    case False
    with Cons.prems step have eq: "rs = [r]" "t = s1" by simp_all
    with a show ?thesis by (simp add: registrations_ok_Cons [of c cs r "[]"])
  qed
qed

lemma registry_ok_init: "registry_ok (snd (shell_init env Ctx p ia s0))"
  by (simp add: registry_ok_def job_count_init)

lemma session_registry:
  assumes "session env p ia calls s0 = (rs, s)"
  shows "custom_command_count (mem s) = registrations_ok calls rs" and "registry_ok s"
  using run_calls_registry [OF assms [unfolded session_def]]
  by (simp_all add: job_count_init registry_ok_init)

lemma register_succeeds:
  assumes "strdup_ok env (trace s @ [Ev_strdup n])"
    and "custom_command_count (mem s) < MAX_CUSTOM_COMMANDS"
  shows "fst (shell_register_command env Ctx (Some n) (Some cb) s) = Return SHELL_OK"
    and "custom_command_count (mem (snd (shell_register_command env Ctx (Some n) (Some cb) s)))
           = Suc (custom_command_count (mem s))"
    and "name (custom_commands (mem (snd (shell_register_command env Ctx (Some n) (Some cb) s)))
           (custom_command_count (mem s))) = Some n"
    and "callback (custom_commands (mem (snd (shell_register_command env Ctx (Some n) (Some cb) s)))
           (custom_command_count (mem s))) = Some cb"
    and "\<forall>i. i \<noteq> custom_command_count (mem s) \<longrightarrow>
           custom_commands (mem (snd (shell_register_command env Ctx (Some n) (Some cb) s))) i
             = custom_commands (mem s) i"
  using assms by (simp_all add: shell_register_command_def strdup_def Let_def)

lemma run_registers:
  assumes alloc: "\<forall>t. strdup_ok env t"
  shows "custom_command_count (mem s) + length regs \<le> MAX_CUSTOM_COMMANDS \<Longrightarrow>
     fst (run_calls env (map register_call regs) s) = replicate (length regs) (Return SHELL_OK) \<and>
     custom_command_count (mem (snd (run_calls env (map register_call regs) s)))
       = custom_command_count (mem s) + length regs \<and>
     (\<forall>i<length regs.
        name (custom_commands (mem (snd (run_calls env (map register_call regs) s)))
               (custom_command_count (mem s) + i)) = Some (fst (regs ! i)) \<and>
        callback (custom_commands (mem (snd (run_calls env (map register_call regs) s)))
               (custom_command_count (mem s) + i)) = Some (snd (regs ! i))) \<and>
     (\<forall>i<custom_command_count (mem s).
        custom_commands (mem (snd (run_calls env (map register_call regs) s))) i
          = custom_commands (mem s) i)"
proof (induction regs arbitrary: s)
  case Nil
  then show ?case by simp
next
  case (Cons nc regs)
  let ?c = "custom_command_count (mem s)"
  let ?s1 = "snd (shell_register_command env Ctx (Some (fst nc)) (Some (snd nc)) s)"
  let ?t = "snd (run_calls env (map register_call regs) ?s1)"
  from Cons.prems have lt: "?c < MAX_CUSTOM_COMMANDS" by simp
  note st = register_succeeds [OF alloc [rule_format] lt, of "fst nc" "snd nc"]
  from Cons.prems st(2) have "custom_command_count (mem ?s1) + length regs \<le> MAX_CUSTOM_COMMANDS"
    by simp
  note ih = Cons.IH [OF this]
  have run: "run_calls env (map register_call (nc # regs)) s =
      (Return SHELL_OK # fst (run_calls env (map register_call regs) ?s1), ?t)"
    using st(1) by (simp add: register_call_def case_prod_beta)
  have names: "name (custom_commands (mem ?t) (?c + i)) = Some (fst ((nc # regs) ! i)) \<and>
      callback (custom_commands (mem ?t) (?c + i)) = Some (snd ((nc # regs) ! i))"
    if "i < length (nc # regs)" for i
  proof (cases i)
    case 0
    with ih st(2,3,4) show ?thesis by simp
  next
    case (Suc k)
    with that ih st(2) show ?thesis by simp
  qed
  have old: "custom_commands (mem ?t) i = custom_commands (mem s) i" if "i < ?c" for i
    using that ih st(2,5) by simp
  from run ih st(2) names old show ?case by simp
qed

lemma registrations_ok_all:
  "registrations_ok (map register_call regs) (replicate (length regs) (Return SHELL_OK)) = length regs"
  by (induction regs) (simp_all add: register_call_def)

lemma fifty_run:
  "fst (session calm_env None False fifty_calls blank_sys) = replicate 50 (Return SHELL_OK)"
  "custom_command_count (mem fifty_sys) = 50"
  "name (custom_commands (mem fifty_sys) 0) = Some ''a''"
  "callback (custom_commands (mem fifty_sys) 0) = Some hello_callback"
proof -
  let ?s = "snd (shell_init calm_env Ctx None False blank_sys)"
  have "custom_command_count (mem ?s) + length fifty_commands \<le> MAX_CUSTOM_COMMANDS"
    by (simp add: job_count_init fifty_commands_def MAX_CUSTOM_COMMANDS_def)
  moreover have "\<forall>t. strdup_ok calm_env t" by (simp add: calm_env_def)
  ultimately have r: "fst (run_calls calm_env (map register_call fifty_commands) ?s) =
        replicate (length fifty_commands) (Return SHELL_OK) \<and>
      custom_command_count (mem (snd (run_calls calm_env (map register_call fifty_commands) ?s)))
        = custom_command_count (mem ?s) + length fifty_commands \<and>
      (\<forall>i<length fifty_commands.
        name (custom_commands (mem (snd (run_calls calm_env (map register_call fifty_commands) ?s)))
               (custom_command_count (mem ?s) + i)) = Some (fst (fifty_commands ! i)) \<and>
        callback (custom_commands (mem (snd (run_calls calm_env (map register_call fifty_commands) ?s)))
               (custom_command_count (mem ?s) + i)) = Some (snd (fifty_commands ! i)))"
    using run_registers [of calm_env ?s fifty_commands] by blast
  have len: "length fifty_commands = 50" by (simp add: fifty_commands_def)
  have zero: "fifty_commands ! 0 = (''a'', hello_callback)"
    by (simp add: fifty_commands_def nth_map)
  from r len show "fst (session calm_env None False fifty_calls blank_sys) = replicate 50 (Return SHELL_OK)"
    by (simp add: session_def fifty_calls_def)
  from r len show "custom_command_count (mem fifty_sys) = 50"
    by (simp add: session_def fifty_calls_def fifty_sys_def job_count_init)
  from r len have "name (custom_commands (mem fifty_sys) (0 + 0)) = Some (fst (fifty_commands ! 0)) \<and>
      callback (custom_commands (mem fifty_sys) (0 + 0)) = Some (snd (fifty_commands ! 0))"
    by (simp add: session_def fifty_calls_def fifty_sys_def job_count_init)
  with zero show "name (custom_commands (mem fifty_sys) 0) = Some ''a''"
    and "callback (custom_commands (mem fifty_sys) 0) = Some hello_callback" by simp_all
qed

lemma fifty_ok:
  "registrations_ok fifty_calls (fst (session calm_env None False fifty_calls blank_sys)) = 50"
proof -
  have len: "length fifty_commands = 50" by (simp add: fifty_commands_def)
  have "registrations_ok (map register_call fifty_commands)
      (replicate (length fifty_commands) (Return SHELL_OK)) = length fifty_commands"
    by (rule registrations_ok_all)
  then show ?thesis unfolding fifty_run(1) by (simp only: fifty_calls_def len)
qed

text \<open>
  Claim C6. Take any session in which exactly \<^verbatim>\<open>MAX_CUSTOM_COMMANDS\<close> calls of
  \<^verbatim>\<open>shell_register_command\<close> returned \<^verbatim>\<open>SHELL_OK\<close>. The next registration of a
  name and a callback returns \<^verbatim>\<open>SHELL_ERROR_CUSTOM_COMMAND_FULL\<close> and writes the
  last-error field only: the count and every registry entry are as before. Every
  entry below the capacity has its name and callback, and \<^verbatim>\<open>shell_execute_custom\<close> on
  that name still calls that callback (the first entry of a name, where a name was
  registered twice).
\<close>

theorem registry_full_after_capacity:
  assumes "session env p ia calls s0 = (rs, s)"
    and "registrations_ok calls rs = MAX_CUSTOM_COMMANDS"
  shows "shell_register_command env Ctx (Some n) (Some cb) s =
           (Return SHELL_ERROR_CUSTOM_COMMAND_FULL,
            set_last_error SHELL_ERROR_CUSTOM_COMMAND_FULL s) \<and>
         custom_command_count (mem s) = MAX_CUSTOM_COMMANDS \<and>
         custom_command_count (mem (snd (shell_register_command env Ctx (Some n) (Some cb) s)))
           = MAX_CUSTOM_COMMANDS \<and>
         custom_commands (mem (snd (shell_register_command env Ctx (Some n) (Some cb) s)))
           = custom_commands (mem s) \<and>
         (\<forall>i<MAX_CUSTOM_COMMANDS. \<exists>nm f.
            name (custom_commands (mem s) i) = Some nm \<and>
            callback (custom_commands (mem s) i) = Some f \<and>
            ((\<forall>j<i. name (custom_commands (mem s) j) \<noteq> Some nm) \<longrightarrow>
               (\<forall>argc rest.
                  shell_execute_custom env Ctx argc (Some (Some nm # rest))
                      (snd (shell_register_command env Ctx (Some n) (Some cb) s)) =
                    call_custom i f argc (Some nm # rest)
                      (snd (shell_register_command env Ctx (Some n) (Some cb) s)))))"
proof -
  let ?t = "set_last_error SHELL_ERROR_CUSTOM_COMMAND_FULL s"
  have count: "custom_command_count (mem s) = MAX_CUSTOM_COMMANDS"
    using session_registry(1) [OF assms(1)] assms(2) by simp
  then have full: "shell_register_command env Ctx (Some n) (Some cb) s =
      (Return SHELL_ERROR_CUSTOM_COMMAND_FULL, ?t)"
    by (simp add: shell_register_command_def)
  have ok: "registry_ok s" by (rule session_registry(2) [OF assms(1)])
  have inv: "\<exists>nm f. name (custom_commands (mem s) i) = Some nm \<and>
        callback (custom_commands (mem s) i) = Some f \<and>
        ((\<forall>j<i. name (custom_commands (mem s) j) \<noteq> Some nm) \<longrightarrow>
           (\<forall>argc rest. shell_execute_custom env Ctx argc (Some (Some nm # rest)) ?t =
              call_custom i f argc (Some nm # rest) ?t))"
    if i: "i < MAX_CUSTOM_COMMANDS" for i
  proof -
    from ok i count obtain nm f where nf: "name (custom_commands (mem s) i) = Some nm"
      "callback (custom_commands (mem s) i) = Some f"
      by (auto simp: registry_ok_def)
    have "shell_execute_custom env Ctx argc (Some (Some nm # rest)) ?t =
        call_custom i f argc (Some nm # rest) ?t"
      if first: "\<forall>j<i. name (custom_commands (mem s) j) \<noteq> Some nm" for argc rest
    proof -
      have "\<exists>m. name (custom_commands (mem ?t) j) = Some m \<and> m \<noteq> nm" if "j < i" for j
      proof -
        from that i count have "j < custom_command_count (mem s)" by simp
        with ok obtain m where "name (custom_commands (mem s) j) = Some m"
          by (auto simp: registry_ok_def)
        with first that show ?thesis by auto
      qed
      then have "\<forall>j. 0 \<le> j \<and> j < i \<longrightarrow>
          (\<exists>m. name (custom_commands (mem ?t) j) = Some m \<and> m \<noteq> nm)"
        by blast
      then have "custom_loop 0 argc (Some nm # rest) ?t = call_custom i f argc (Some nm # rest) ?t"
        using i count nf
        by (intro custom_loop_first_match [where cmd = nm]) (simp_all add: read_slot_def)
      then show ?thesis by (simp add: shell_execute_custom_def)
    qed
    with nf show ?thesis by blast
  qed
  from full count inv show ?thesis by simp
qed

theorem registry_full_after_capacity_witness:
  "registrations_ok fifty_calls (fst (session calm_env None False fifty_calls blank_sys))
     = MAX_CUSTOM_COMMANDS \<and>
   fst (shell_register_command calm_env Ctx (Some ''extra'') (Some hello_callback) fifty_sys)
     = Return SHELL_ERROR_CUSTOM_COMMAND_FULL \<and>
   fst (shell_execute_custom calm_env Ctx 1 (Some [Some ''a'', None])
         (snd (shell_register_command calm_env Ctx (Some ''extra'') (Some hello_callback) fifty_sys)))
     = Return SHELL_OK"
proof -
  have s: "session calm_env None False fifty_calls blank_sys =
      (fst (session calm_env None False fifty_calls blank_sys), fifty_sys)"
    by (simp add: fifty_sys_def)
  have k: "registrations_ok fifty_calls (fst (session calm_env None False fifty_calls blank_sys))
     = MAX_CUSTOM_COMMANDS"
    by (simp add: fifty_ok MAX_CUSTOM_COMMANDS_def)
  note t = registry_full_after_capacity [OF s k, of "''extra''" hello_callback]
  from t have full: "shell_register_command calm_env Ctx (Some ''extra'') (Some hello_callback) fifty_sys =
      (Return SHELL_ERROR_CUSTOM_COMMAND_FULL, set_last_error SHELL_ERROR_CUSTOM_COMMAND_FULL fifty_sys)"
    by blast
  have "(0::nat) < MAX_CUSTOM_COMMANDS" by (simp add: MAX_CUSTOM_COMMANDS_def)
  with t obtain f where f: "callback (custom_commands (mem fifty_sys) 0) = Some f"
    and run: "shell_execute_custom calm_env Ctx 1 (Some [Some ''a'', None])
        (snd (shell_register_command calm_env Ctx (Some ''extra'') (Some hello_callback) fifty_sys)) =
      call_custom 0 f 1 [Some ''a'', None]
        (snd (shell_register_command calm_env Ctx (Some ''extra'') (Some hello_callback) fifty_sys))"
    using fifty_run(3) by fastforce
  from f fifty_run(4) have "f = hello_callback" by simp
  with run full k show ?thesis
    by (simp add: call_custom_def hello_callback_def Let_def)
qed

section \<open>The redirection loop\<close>

lemma read_slot_here: "read_slot (pre @ c # cs) (length pre) = Some c"
  by (simp add: read_slot_def)

lemma read_slot_next:
  "read_slot (pre @ c # map Some ts @ [None]) (Suc (length pre)) = Some (next_token ts)"
proof -
  have "(pre @ c # map Some ts @ [None]) ! (length pre + 1) = (c # map Some ts @ [None]) ! 1"
    by (rule nth_append_length_plus)
  then show ?thesis by (cases ts) (simp_all add: read_slot_def)
qed

lemma redirect_step_here:
  "tokens p = pre @ Some t # map Some ts @ [None] \<Longrightarrow>
   redirect_step (length pre) p =
     Some (if t = ''<'' then p\<lparr>input_file := next_token ts, tokens := pre @ None # map Some ts @ [None]\<rparr>
           else if t = ''>'' then p\<lparr>output_file := next_token ts, tokens := pre @ None # map Some ts @ [None]\<rparr>
           else if t = ''>>'' then p\<lparr>output_file := next_token ts, append_output := True,
                                    tokens := pre @ None # map Some ts @ [None]\<rparr>
           else p)"
  by (simp add: redirect_step_def read_slot_here read_slot_next)

lemma redirect_loop_scan:
  "tokens p = pre @ map Some ts @ [None] \<Longrightarrow>
   \<exists>q. redirect_loop (length pre) (length pre + length ts) p = Some q \<and>
       tokens q = pre @ map blank_slot ts @ [None] \<and>
       (input_file q, output_file q, append_output q) =
         scan_redirections ts (input_file p, output_file p, append_output p)"
proof (induction ts arbitrary: pre p)
  case Nil
  then show ?case by (simp add: redirect_loop.simps)
next
  case (Cons t ts)
  from Cons.prems have toks: "tokens p = pre @ Some t # map Some ts @ [None]" by simp
  obtain p1 where step: "redirect_step (length pre) p = Some p1"
    using redirect_step_here [OF toks] by simp
  have toks1: "tokens p1 = (pre @ [blank_slot t]) @ map Some ts @ [None]"
    using redirect_step_here [OF toks] step toks
    by (auto simp: blank_slot_def is_redirection_def split: if_splits)
  from Cons.IH [OF toks1] obtain q where
    q: "redirect_loop (Suc (length pre)) (Suc (length pre + length ts)) p1 = Some q"
       "tokens q = (pre @ [blank_slot t]) @ map blank_slot ts @ [None]"
       "(input_file q, output_file q, append_output q) =
          scan_redirections ts (input_file p1, output_file p1, append_output p1)"
    by auto
  have acc: "scan_redirections ts (input_file p1, output_file p1, append_output p1) =
      scan_redirections (t # ts) (input_file p, output_file p, append_output p)"
    using redirect_step_here [OF toks] step by (auto split: if_splits)
  have "redirect_loop (length pre) (length pre + length (t # ts)) p =
      redirect_loop (Suc (length pre)) (Suc (length pre + length ts)) p1"
    using step by (subst redirect_loop.simps) simp
  with q acc show ?case by simp
qed

lemma parse_tokens_scan:
  assumes "length toks < MAX_INPUT_SIZE"
  shows "\<exists>q. parse_tokens toks = Some q \<and>
       tokens q = map blank_slot toks @ [None] \<and>
       (input_file q, output_file q, append_output q) = scan_redirections toks (None, None, False)"
  using assms
    redirect_loop_scan [of "\<lparr>tokens = map Some toks @ [None], input_file = None,
      output_file = None, append_output = False\<rparr>" "[]" toks]
  by (simp add: parse_tokens_def)

lemma parse_tokens_None: "parse_tokens toks = None \<longleftrightarrow> MAX_INPUT_SIZE \<le> length toks"
  using parse_tokens_scan [of toks] by (auto simp: parse_tokens_def)

lemma scan_append_flag:
  "snd (snd (scan_redirections ts (i, out, a))) = (a \<or> ''>>'' \<in> set ts)"
  by (induction ts arbitrary: i out a) auto

lemma scan_output_untouched:
  "\<forall>t\<in>set ts. t \<noteq> ''>'' \<and> t \<noteq> ''>>'' \<Longrightarrow> fst (snd (scan_redirections ts (i, out, a))) = out"
  by (induction ts arbitrary: i out a) auto

lemma scan_input_untouched:
  "\<forall>t\<in>set ts. t \<noteq> ''<'' \<Longrightarrow> fst (scan_redirections ts (i, out, a)) = i"
  by (induction ts arbitrary: i out a) auto

lemma scan_output_last:
  "t = ''>'' \<or> t = ''>>'' \<Longrightarrow> \<forall>u\<in>set ys. u \<noteq> ''>'' \<and> u \<noteq> ''>>'' \<Longrightarrow>
   fst (snd (scan_redirections (xs @ t # ys) (i, out, a))) = next_token ys"
proof (induction xs arbitrary: i out a)
  case Nil
  then show ?case by (auto simp: scan_output_untouched)
next
  case (Cons x xs)
  then show ?case by auto
qed

lemma scan_input_last:
  "\<forall>u\<in>set ys. u \<noteq> ''<'' \<Longrightarrow>
   fst (scan_redirections (xs @ ''<'' # ys) (i, out, a)) = next_token ys"
proof (induction xs arbitrary: i out a)
  case Nil
  then show ?case by (auto simp: scan_input_untouched)
next
  case (Cons x xs)
  then show ?case by auto
qed

lemma split_at_index:
  "k < length toks \<Longrightarrow> toks = take k toks @ toks ! k # drop (Suc k) toks"
  by (simp add: id_take_nth_drop)

lemma next_token_drop:
  "k < length toks \<Longrightarrow> next_token (drop (Suc k) toks) = (map Some toks @ [None]) ! Suc k"
proof (cases "Suc k < length toks")
  case True
  then have "drop (Suc k) toks = toks ! Suc k # drop (Suc (Suc k)) toks"
    by (simp add: Cons_nth_drop_Suc)
  with True show ?thesis by (simp add: nth_append)
next
  case False
  assume "k < length toks"
  with False have "Suc k = length toks" by simp
  then show ?thesis by (simp add: nth_append)
qed

lemma later_tokens:
  "\<forall>j. k < j \<and> j < length toks \<longrightarrow> P (toks ! j) \<Longrightarrow> \<forall>u\<in>set (drop (Suc k) toks). P u"
  by (auto simp: in_set_conv_nth)

lemma argv_strings_blank:
  "argv_strings (map blank_slot toks @ [None]) = takeWhile (\<lambda>t. \<not> is_redirection t) toks"
  by (induction toks) (auto simp: argv_strings_def blank_slot_def)

lemma scan_output_at:
  assumes "k < length toks" "toks ! k = ''>'' \<or> toks ! k = ''>>''"
    and "\<forall>j. k < j \<and> j < length toks \<longrightarrow> toks ! j \<noteq> ''>'' \<and> toks ! j \<noteq> ''>>''"
  shows "fst (snd (scan_redirections toks (i, out, a))) = (map Some toks @ [None]) ! Suc k"
proof -
  have "fst (snd (scan_redirections (take k toks @ toks ! k # drop (Suc k) toks) (i, out, a)))
      = next_token (drop (Suc k) toks)"
    using assms(2) later_tokens [OF assms(3)] by (intro scan_output_last) auto
  then show ?thesis
    using split_at_index [OF assms(1)] next_token_drop [OF assms(1)] by simp
qed

lemma scan_input_at:
  assumes "k < length toks" "toks ! k = ''<''"
    and "\<forall>j. k < j \<and> j < length toks \<longrightarrow> toks ! j \<noteq> ''<''"
  shows "fst (scan_redirections toks (i, out, a)) = (map Some toks @ [None]) ! Suc k"
proof -
  have "fst (scan_redirections (take k toks @ ''<'' # drop (Suc k) toks) (i, out, a))
      = next_token (drop (Suc k) toks)"
    using later_tokens [OF assms(3)] by (intro scan_input_last) auto
  then show ?thesis
    using split_at_index [OF assms(1)] next_token_drop [OF assms(1)] assms(2) by simp
qed

lemma blank_slot_fun: "blank_slot = (\<lambda>t. if is_redirection t then None else Some t)"
  by (rule ext) (simp add: blank_slot_def)

lemma set_last_error_twice [simp]: "set_last_error e (set_last_error e' s) = set_last_error e s"
  by (simp add: set_last_error_def)

lemma custom_empty_registry:
  "custom_command_count (mem s) = 0 \<Longrightarrow>
   shell_execute_custom env Ctx argc (Some argv) s =
     (Return SHELL_ERROR_COMMAND_NOT_FOUND, set_last_error SHELL_ERROR_COMMAND_NOT_FOUND s)"
  by (simp add: shell_execute_custom_def custom_loop.simps)

lemma dispatch_external:
  assumes "custom_command_count (mem s) = 0" and "tokens p = c0 # cs"
    and "c0 \<noteq> Some ''exit''" "c0 \<noteq> Some ''history''" "c0 \<noteq> Some ''jobs''"
  shows "dispatch_command env Ctx n p s =
     shell_execute_external env Ctx (Some (tokens p)) (input_file p) (output_file p)
       (append_output p) (set_last_error SHELL_ERROR_COMMAND_NOT_FOUND s)"
  using assms
  by (cases c0)
     (simp_all add: dispatch_command_def custom_empty_registry read_slot_def
        shell_execute_builtin_def)

lemma command_dispatch:
  "parse_tokens (strtok_loop line) = Some p \<Longrightarrow>
   shell_execute_command env Ctx (Some line) s =
     dispatch_command env Ctx (length (strtok_loop line)) p s"
  by (simp add: shell_execute_command_def)

lemma blank_slot_hd:
  "toks \<noteq> [] \<Longrightarrow> hd toks \<noteq> t \<Longrightarrow> hd (map blank_slot toks @ [None]) \<noteq> Some t"
  by (cases toks) (auto simp: blank_slot_def)

lemma command_external:
  assumes "custom_command_count (mem s) = 0" and "parse_tokens (strtok_loop line) = Some p"
    and "tokens p = map blank_slot (strtok_loop line) @ [None]"
    and "strtok_loop line \<noteq> []"
    and "hd (strtok_loop line) \<noteq> ''exit''" "hd (strtok_loop line) \<noteq> ''history''"
        "hd (strtok_loop line) \<noteq> ''jobs''"
  shows "spawn_requests (trace (snd (shell_execute_command env Ctx (Some line) s))) =
     spawn_requests (trace s) @
       [\<lparr>sp_file = hd (tokens p), sp_argv = argv_strings (tokens p),
         sp_file_actions = redirect_actions (input_file p) (output_file p) (append_output p),
         sp_flags = {POSIX_SPAWN_SETSIGMASK, POSIX_SPAWN_SETSIGDEF},
         sp_sigmask = signal_mask (base (mem s))\<rparr>]"
proof -
  obtain c0 cs where c: "tokens p = c0 # cs" using assms(3,4) by (cases "strtok_loop line") auto
  have "c0 \<noteq> Some ''exit''" "c0 \<noteq> Some ''history''" "c0 \<noteq> Some ''jobs''"
    using c assms(3) blank_slot_hd [OF assms(4)] assms(5,6,7) by (metis list.sel(1))+
  then have "shell_execute_command env Ctx (Some line) s =
     shell_execute_external env Ctx (Some (tokens p)) (input_file p) (output_file p)
       (append_output p) (set_last_error SHELL_ERROR_COMMAND_NOT_FOUND s)"
    using command_dispatch [OF assms(2)] dispatch_external [OF assms(1) c] by simp
  moreover have "tokens p \<noteq> []" using c by simp
  ultimately show ?thesis
    by (simp add: spawn_requests_external set_last_error_def)
qed

lemma external_never_invalid_input:
  "fst (shell_execute_external env ctx argv inp out app s) \<noteq> Return SHELL_ERROR_INVALID_INPUT"
  by (simp add: shell_execute_external_def Let_def case_prod_beta split: option.splits)

lemma dispatch_never_invalid_input:
  "fst (dispatch_command env ctx n p s) \<noteq> Return SHELL_ERROR_INVALID_INPUT"
proof -
  have "r \<noteq> Return SHELL_ERROR_INVALID_INPUT" if "\<not> returned r" for r
    using that by (cases r) simp_all
  then show ?thesis
    using external_never_invalid_input
    by (auto simp: dispatch_command_def Let_def case_prod_beta split: option.splits)
qed

lemma command_never_invalid_input:
  "fst (shell_execute_command env ctx c s) \<noteq> Return SHELL_ERROR_INVALID_INPUT"
  by (simp add: shell_execute_command_def Let_def dispatch_never_invalid_input split: option.splits)

text \<open>
  Claim C4, as stated, fails on the code. A trailing operator is neither rejected nor
  without effect. It takes the terminating null pointer as its path and so erases a
  path an earlier operator of its direction had set: \<^verbatim>\<open>cat > out >\<close> returns
  \<^verbatim>\<open>SHELL_OK\<close> and spawns \<^verbatim>\<open>cat\<close> with no file action, where \<^verbatim>\<open>cat > out\<close> opens
  \<^verbatim>\<open>out\<close>. A trailing \<^verbatim>\<open>>>\<close> sets the append flag. A line that is only \<^verbatim>\<open>>\<close> leaves
  a null \<^verbatim>\<open>tokens[0]\<close>: \<^verbatim>\<open>strcmp\<close> on a null pointer when a command is registered, a
  spawn of a null file otherwise. No status of the code reports bad syntax. And
  not every token sequence stays inside the array: with 1024 tokens (here 1023 and
  a trailing \<^verbatim>\<open>>\<close>) the writes of lines 308 and 311 and the read of \<^verbatim>\<open>tokens[i + 1]\<close>
  are outside its \<^verbatim>\<open>MAX_INPUT_SIZE\<close> cells.
\<close>

theorem trailing_redirection_counterexample:
  "strtok_loop ''cat > out >'' = [''cat'', ''>'', ''out'', ''>''] \<and>
   map_option output_file (parse_tokens [''cat'', ''>'', ''out'', ''>'']) = Some None \<and>
   map_option output_file (parse_tokens [''cat'', ''>'', ''out'']) = Some (Some ''out'') \<and>
   fst (shell_execute_command calm_env Ctx (Some ''cat > out >'') init_sys) = Return SHELL_OK \<and>
   map sp_file_actions
       (spawn_requests (trace (snd (shell_execute_command calm_env Ctx (Some ''cat > out >'') init_sys))))
     = [[]] \<and>
   map sp_file_actions
       (spawn_requests (trace (snd (shell_execute_command calm_env Ctx (Some ''cat > out'') init_sys))))
     = [[\<lparr>fa_fd = 1, fa_path = ''out'', fa_oflag = {O_WRONLY, O_CREAT, O_TRUNC}, fa_mode = 420\<rparr>]] \<and>
   map sp_file_actions
       (spawn_requests (trace (snd (shell_execute_command calm_env Ctx (Some ''cat > out >'') init_sys))))
     \<noteq> map sp_file_actions
       (spawn_requests (trace (snd (shell_execute_command calm_env Ctx (Some ''cat > out'') init_sys)))) \<and>
   map_option append_output (parse_tokens [''ls'', ''>>'']) = Some True \<and>
   map_option append_output (parse_tokens [''ls'']) = Some False \<and>
   fst (shell_execute_command calm_env Ctx (Some ''>'') echo2_sys) = Fault \<and>
   map sp_file (spawn_requests (trace (snd (shell_execute_command calm_env Ctx (Some ''>'') init_sys))))
     = [None] \<and>
   parse_tokens (replicate 1023 ''a'' @ [''>'']) = None"
proof -
  have small: "strtok_loop ''cat > out >'' = [''cat'', ''>'', ''out'', ''>''] \<and>
   map_option output_file (parse_tokens [''cat'', ''>'', ''out'', ''>'']) = Some None \<and>
   map_option output_file (parse_tokens [''cat'', ''>'', ''out'']) = Some (Some ''out'') \<and>
   fst (shell_execute_command calm_env Ctx (Some ''cat > out >'') init_sys) = Return SHELL_OK \<and>
   map sp_file_actions
       (spawn_requests (trace (snd (shell_execute_command calm_env Ctx (Some ''cat > out >'') init_sys))))
     = [[]] \<and>
   map sp_file_actions
       (spawn_requests (trace (snd (shell_execute_command calm_env Ctx (Some ''cat > out'') init_sys))))
     = [[\<lparr>fa_fd = 1, fa_path = ''out'', fa_oflag = {O_WRONLY, O_CREAT, O_TRUNC}, fa_mode = 420\<rparr>]] \<and>
   map sp_file_actions
       (spawn_requests (trace (snd (shell_execute_command calm_env Ctx (Some ''cat > out >'') init_sys))))
     \<noteq> map sp_file_actions
       (spawn_requests (trace (snd (shell_execute_command calm_env Ctx (Some ''cat > out'') init_sys)))) \<and>
   map_option append_output (parse_tokens [''ls'', ''>>'']) = Some True \<and>
   map_option append_output (parse_tokens [''ls'']) = Some False \<and>
   fst (shell_execute_command calm_env Ctx (Some ''>'') echo2_sys) = Fault \<and>
   map sp_file (spawn_requests (trace (snd (shell_execute_command calm_env Ctx (Some ''>'') init_sys))))
     = [None]"
    unfolding init_sys_def echo2_sys_def by code_simp
  have long: "parse_tokens (replicate 1023 ''a'' @ [''>'']) = None"
    by (simp add: parse_tokens_def MAX_INPUT_SIZE_def)
  from small long show ?thesis by (intro conjI) (elim conjE, assumption)+
qed

text \<open>
  Claim C4, amended. For a line with fewer than \<^verbatim>\<open>MAX_INPUT_SIZE\<close> tokens whose last
  token is a redirection operator, the redirection loop reads no cell outside the
  cells that were written (it finishes without a fault; every array read of the model
  goes through the bounds-checked \<^const>\<open>read_slot\<close>): the cell after the last token
  is the terminating null pointer of line 311, and that is what the operator takes as
  its path. Afterwards the input path (for \<^verbatim>\<open><\<close>) or the output path (for \<^verbatim>\<open>>\<close> and
  \<^verbatim>\<open>>>\<close>) is null, whatever an earlier operator had set; the append flag is set
  exactly when a \<^verbatim>\<open>>>\<close> occurs in the line; every operator's slot holds a null
  pointer; and the line is dispatched, never answered with
  \<^verbatim>\<open>SHELL_ERROR_INVALID_INPUT\<close>.
\<close>

theorem trailing_redirection_in_bounds:
  assumes "toks = strtok_loop line" and "length toks < MAX_INPUT_SIZE"
    and "toks \<noteq> []" and "is_redirection (last toks)"
  shows "\<exists>p. parse_tokens toks = Some p \<and>
           shell_execute_command env Ctx (Some line) s = dispatch_command env Ctx (length toks) p s \<and>
           tokens p = map (\<lambda>t. if is_redirection t then None else Some t) toks @ [None] \<and>
           (last toks = ''<'' \<longrightarrow> input_file p = None) \<and>
           (last toks = ''>'' \<or> last toks = ''>>'' \<longrightarrow> output_file p = None) \<and>
           append_output p = (''>>'' \<in> set toks) \<and>
           fst (shell_execute_command env Ctx (Some line) s) \<noteq> Return SHELL_ERROR_INVALID_INPUT"
proof -
  from parse_tokens_scan [OF assms(2)] obtain p where
    p: "parse_tokens toks = Some p" "tokens p = map blank_slot toks @ [None]"
       "(input_file p, output_file p, append_output p) = scan_redirections toks (None, None, False)"
    by blast
  from p(3) have io: "input_file p = fst (scan_redirections toks (None, None, False))"
    "output_file p = fst (snd (scan_redirections toks (None, None, False)))"
    "append_output p = snd (snd (scan_redirections toks (None, None, False)))"
    by (metis fst_conv snd_conv)+
  have split: "toks = butlast toks @ last toks # []" using assms(3) by simp
  have i: "input_file p = None" if "last toks = ''<''"
    using scan_input_last [of "[]" "butlast toks" None None False] split that io(1) by simp
  have out: "output_file p = None" if "last toks = ''>'' \<or> last toks = ''>>''"
    using scan_output_last [of "last toks" "[]" "butlast toks" None None False] split that io(2)
    by simp
  have app: "append_output p = (''>>'' \<in> set toks)"
    using io(3) by (simp add: scan_append_flag)
  have cells: "tokens p = map (\<lambda>t. if is_redirection t then None else Some t) toks @ [None]"
    using p(2) by (simp add: blank_slot_fun)
  have link: "shell_execute_command env Ctx (Some line) s = dispatch_command env Ctx (length toks) p s"
    using p(1) assms(1) by (simp add: command_dispatch)
  show ?thesis
  proof (intro exI [of _ p] conjI impI)
    show "parse_tokens toks = Some p" by (rule p(1))
    show "shell_execute_command env Ctx (Some line) s = dispatch_command env Ctx (length toks) p s"
      by (rule link)
    show "tokens p = map (\<lambda>t. if is_redirection t then None else Some t) toks @ [None]"
      by (rule cells)
    show "append_output p = (''>>'' \<in> set toks)" by (rule app)
    show "fst (shell_execute_command env Ctx (Some line) s) \<noteq> Return SHELL_ERROR_INVALID_INPUT"
      by (rule command_never_invalid_input)
  next
    assume "last toks = ''<''"
    then show "input_file p = None" by (rule i)
  next
    assume "last toks = ''>'' \<or> last toks = ''>>''"
    then show "output_file p = None" by (rule out)
  qed
qed

theorem trailing_redirection_in_bounds_witness:
  "strtok_loop ''cat > out >'' = [''cat'', ''>'', ''out'', ''>''] \<and>
   length [''cat'', ''>'', ''out'', ''>''] < MAX_INPUT_SIZE \<and>
   is_redirection (last [''cat'', ''>'', ''out'', ''>'']) \<and>
   (\<exists>p. parse_tokens [''cat'', ''>'', ''out'', ''>''] = Some p \<and>
        tokens p = [Some ''cat'', None, Some ''out'', None, None] \<and>
        output_file p = None \<and> \<not> append_output p) \<and>
   fst (shell_execute_command calm_env Ctx (Some ''cat > out >'') init_sys)
     \<noteq> Return SHELL_ERROR_INVALID_INPUT"
proof -
  let ?toks = "[''cat'', ''>'', ''out'', ''>'']"
  have t: "strtok_loop ''cat > out >'' = ?toks" by code_simp
  have l: "length ?toks < MAX_INPUT_SIZE" by (simp add: MAX_INPUT_SIZE_def)
  have r: "is_redirection (last ?toks)" by (simp add: is_redirection_def)
  from trailing_redirection_in_bounds [OF t [symmetric] l _ r, of calm_env init_sys] t r l
  show ?thesis by (auto simp: is_redirection_def)
qed

text \<open>
  Claim C10. The output path is the cell after the last \<^verbatim>\<open>>\<close> or \<^verbatim>\<open>>>\<close> of the line,
  and the append flag is set exactly when some \<^verbatim>\<open>>>\<close> occurs anywhere in the line: a
  later \<^verbatim>\<open>>\<close> does not clear it. Where the line reaches the external strategy (shown
  here for an empty registry and a first token that is no built-in), the one file
  action on standard output opens that path, with \<^verbatim>\<open>O_APPEND\<close> when a \<^verbatim>\<open>>>\<close> occurs.
  The example of the claim, \<^verbatim>\<open>>> a\<close> followed by \<^verbatim>\<open>> b\<close>, is evaluated after the proof.
\<close>

theorem last_output_redirection_wins:
  assumes "toks = strtok_loop line" and "length toks < MAX_INPUT_SIZE"
    and "k < length toks" and "toks ! k = ''>'' \<or> toks ! k = ''>>''"
    and "\<forall>j. k < j \<and> j < length toks \<longrightarrow> toks ! j \<noteq> ''>'' \<and> toks ! j \<noteq> ''>>''"
  shows "\<exists>p. parse_tokens toks = Some p \<and>
           shell_execute_command env Ctx (Some line) s = dispatch_command env Ctx (length toks) p s \<and>
           output_file p = (map Some toks @ [None]) ! Suc k \<and>
           append_output p = (''>>'' \<in> set toks) \<and>
           (custom_command_count (mem s) = 0 \<and> hd toks \<noteq> ''exit'' \<and> hd toks \<noteq> ''history'' \<and>
            hd toks \<noteq> ''jobs'' \<and> Suc k < length toks \<longrightarrow>
              (\<exists>req. spawn_requests (trace (snd (shell_execute_command env Ctx (Some line) s)))
                        = spawn_requests (trace s) @ [req] \<and>
                     filter (\<lambda>a. fa_fd a = STDOUT_FILENO) (sp_file_actions req) =
                       [\<lparr>fa_fd = STDOUT_FILENO, fa_path = toks ! Suc k,
                         fa_oflag = (if ''>>'' \<in> set toks then {O_WRONLY, O_CREAT, O_APPEND}
                                     else {O_WRONLY, O_CREAT, O_TRUNC}),
                         fa_mode = 420\<rparr>]))"
proof -
  from parse_tokens_scan [OF assms(2)] obtain p where
    p: "parse_tokens toks = Some p" "tokens p = map blank_slot toks @ [None]"
       "(input_file p, output_file p, append_output p) = scan_redirections toks (None, None, False)"
    by blast
  from p(3) have "output_file p = fst (snd (scan_redirections toks (None, None, False)))"
    and "append_output p = snd (snd (scan_redirections toks (None, None, False)))"
    by (metis fst_conv snd_conv)+
  then have out: "output_file p = (map Some toks @ [None]) ! Suc k"
    and app: "append_output p = (''>>'' \<in> set toks)"
    using scan_output_at [OF assms(3,4,5)] by (simp_all add: scan_append_flag)
  have link: "shell_execute_command env Ctx (Some line) s = dispatch_command env Ctx (length toks) p s"
    using p(1) assms(1) by (simp add: command_dispatch)
  have ext: "\<exists>req. spawn_requests (trace (snd (shell_execute_command env Ctx (Some line) s)))
                        = spawn_requests (trace s) @ [req] \<and>
                     filter (\<lambda>a. fa_fd a = STDOUT_FILENO) (sp_file_actions req) =
                       [\<lparr>fa_fd = STDOUT_FILENO, fa_path = toks ! Suc k,
                         fa_oflag = (if ''>>'' \<in> set toks then {O_WRONLY, O_CREAT, O_APPEND}
                                     else {O_WRONLY, O_CREAT, O_TRUNC}),
                         fa_mode = 420\<rparr>]"
    if h: "custom_command_count (mem s) = 0" "hd toks \<noteq> ''exit''" "hd toks \<noteq> ''history''"
          "hd toks \<noteq> ''jobs''" "Suc k < length toks"
  proof -
    from h(5) have ne: "strtok_loop line \<noteq> []" using assms(1) by auto
    from h(5) have "output_file p = Some (toks ! Suc k)" using out by (simp add: nth_append)
    then show ?thesis
      using command_external [OF h(1) p(1) [unfolded assms(1)] p(2) [unfolded assms(1)] ne
          h(2,3,4) [unfolded assms(1)], of env]
        redirect_actions_stdout [of "input_file p" "output_file p" "append_output p"] app
      by simp
  qed
  show ?thesis
  proof (intro exI [of _ p] conjI impI)
    show "parse_tokens toks = Some p" by (rule p(1))
    show "shell_execute_command env Ctx (Some line) s = dispatch_command env Ctx (length toks) p s"
      by (rule link)
    show "output_file p = (map Some toks @ [None]) ! Suc k" by (rule out)
    show "append_output p = (''>>'' \<in> set toks)" by (rule app)
  next
    assume "custom_command_count (mem s) = 0 \<and> hd toks \<noteq> ''exit'' \<and> hd toks \<noteq> ''history'' \<and>
            hd toks \<noteq> ''jobs'' \<and> Suc k < length toks"
    then show "\<exists>req. spawn_requests (trace (snd (shell_execute_command env Ctx (Some line) s)))
                        = spawn_requests (trace s) @ [req] \<and>
                     filter (\<lambda>a. fa_fd a = STDOUT_FILENO) (sp_file_actions req) =
                       [\<lparr>fa_fd = STDOUT_FILENO, fa_path = toks ! Suc k,
                         fa_oflag = (if ''>>'' \<in> set toks then {O_WRONLY, O_CREAT, O_APPEND}
                                     else {O_WRONLY, O_CREAT, O_TRUNC}),
                         fa_mode = 420\<rparr>]"
      using ext by blast
  qed
qed

theorem last_output_redirection_wins_witness:
  "strtok_loop ''cat >> a > b'' = [''cat'', ''>>'', ''a'', ''>'', ''b''] \<and>
   (\<exists>p. parse_tokens [''cat'', ''>>'', ''a'', ''>'', ''b''] = Some p \<and>
        output_file p = Some ''b'' \<and> append_output p) \<and>
   (\<exists>req. spawn_requests (trace (snd (shell_execute_command calm_env Ctx (Some ''cat >> a > b'') init_sys)))
            = spawn_requests (trace init_sys) @ [req] \<and>
          filter (\<lambda>a. fa_fd a = STDOUT_FILENO) (sp_file_actions req) =
            [\<lparr>fa_fd = STDOUT_FILENO, fa_path = ''b'', fa_oflag = {O_WRONLY, O_CREAT, O_APPEND},
              fa_mode = 420\<rparr>])"
proof -
  let ?toks = "[''cat'', ''>>'', ''a'', ''>'', ''b'']"
  have t: "strtok_loop ''cat >> a > b'' = ?toks" by code_simp
  have l: "length ?toks < MAX_INPUT_SIZE" by (simp add: MAX_INPUT_SIZE_def)
  have k: "3 < length ?toks" "?toks ! 3 = ''>'' \<or> ?toks ! 3 = ''>>''" by simp_all
  have later: "\<forall>j. 3 < j \<and> j < length ?toks \<longrightarrow> ?toks ! j \<noteq> ''>'' \<and> ?toks ! j \<noteq> ''>>''"
  proof (intro allI impI)
    fix j :: nat assume "3 < j \<and> j < length ?toks"
    then have "j = 4" by simp
    then show "?toks ! j \<noteq> ''>'' \<and> ?toks ! j \<noteq> ''>>''" by simp
  qed
  have c: "custom_command_count (mem init_sys) = 0"
    by (simp add: init_sys_def session_def job_count_init)
  from last_output_redirection_wins [OF t [symmetric] l k later, of calm_env init_sys] c t
  show ?thesis by auto
qed

text \<open>
  Claim C2, as stated, fails on the code. The code does not take the filename token
  out of the argument list, and it does not close the gap an operator leaves: it
  writes a null pointer over the operator's slot. So \<^verbatim>\<open>posix_spawnp\<close> gets the tokens
  before the first operator only (for \<^verbatim>\<open>ls > out -l\<close> it gets \<^verbatim>\<open>ls\<close>, not
  \<^verbatim>\<open>ls -l\<close>), and a custom callback is handed the unchanged token count and an array
  that still holds the filename (for \<^verbatim>\<open>echo2 > out\<close>: count 3 and the cells
  \<^verbatim>\<open>echo2\<close>, null, \<^verbatim>\<open>out\<close>).
\<close>

theorem redirections_removed_counterexample:
  "map sp_argv (spawn_requests (trace (snd (shell_execute_command calm_env Ctx (Some ''ls > out -l'') init_sys))))
     = [[''ls'']] \<and>
   spec_strip_redirections (strtok_loop ''ls > out -l'') = [''ls'', ''-l''] \<and>
   map sp_argv (spawn_requests (trace (snd (shell_execute_command calm_env Ctx (Some ''ls > out -l'') init_sys))))
     \<noteq> [spec_strip_redirections (strtok_loop ''ls > out -l'')] \<and>
   trace (snd (shell_execute_command calm_env Ctx (Some ''echo2 > out'') echo2_sys)) =
     trace echo2_sys @ [Ev_callback 0 3 [Some ''echo2'', None, Some ''out'', None]] \<and>
   spec_strip_redirections (strtok_loop ''echo2 > out'') = [''echo2'']"
  unfolding init_sys_def echo2_sys_def by code_simp

text \<open>
  Claim C2, amended. For every line whose tokens fit the array: the input path is the
  token after the last \<^verbatim>\<open><\<close>, the output path is the token after the last \<^verbatim>\<open>>\<close> or
  \<^verbatim>\<open>>>\<close>, the append flag is set exactly when a \<^verbatim>\<open>>>\<close> occurs; every operator's slot
  of the array holds a null pointer afterwards and every other token stays in its
  slot; the argument list \<^verbatim>\<open>posix_spawnp\<close> reads from the array is the tokens before
  the first operator. This array and these paths are what the dispatch is called with.
\<close>

theorem redirections_recorded_and_blanked:
  assumes "toks = strtok_loop line" and "length toks < MAX_INPUT_SIZE"
  shows "\<exists>p. parse_tokens toks = Some p \<and>
           shell_execute_command env Ctx (Some line) s = dispatch_command env Ctx (length toks) p s \<and>
           tokens p = map (\<lambda>t. if is_redirection t then None else Some t) toks @ [None] \<and>
           argv_strings (tokens p) = takeWhile (\<lambda>t. \<not> is_redirection t) toks \<and>
           (\<forall>k. Suc k < length toks \<and> toks ! k = ''<'' \<and>
                (\<forall>j. k < j \<and> j < length toks \<longrightarrow> toks ! j \<noteq> ''<'')
              \<longrightarrow> input_file p = Some (toks ! Suc k)) \<and>
           (\<forall>k. Suc k < length toks \<and> (toks ! k = ''>'' \<or> toks ! k = ''>>'') \<and>
                (\<forall>j. k < j \<and> j < length toks \<longrightarrow> toks ! j \<noteq> ''>'' \<and> toks ! j \<noteq> ''>>'')
              \<longrightarrow> output_file p = Some (toks ! Suc k)) \<and>
           append_output p = (''>>'' \<in> set toks)"
proof -
  from parse_tokens_scan [OF assms(2)] obtain p where
    p: "parse_tokens toks = Some p" "tokens p = map blank_slot toks @ [None]"
       "(input_file p, output_file p, append_output p) = scan_redirections toks (None, None, False)"
    by blast
  from p(3) have io: "input_file p = fst (scan_redirections toks (None, None, False))"
    "output_file p = fst (snd (scan_redirections toks (None, None, False)))"
    "append_output p = snd (snd (scan_redirections toks (None, None, False)))"
    by (metis fst_conv snd_conv)+
  have link: "shell_execute_command env Ctx (Some line) s = dispatch_command env Ctx (length toks) p s"
    using p(1) assms(1) by (simp add: command_dispatch)
  have cells: "tokens p = map (\<lambda>t. if is_redirection t then None else Some t) toks @ [None]"
    using p(2) by (simp add: blank_slot_fun)
  have argv: "argv_strings (tokens p) = takeWhile (\<lambda>t. \<not> is_redirection t) toks"
    using p(2) by (simp add: argv_strings_blank)
  have i: "input_file p = Some (toks ! Suc k)"
    if "Suc k < length toks" "toks ! k = ''<''"
       "\<forall>j. k < j \<and> j < length toks \<longrightarrow> toks ! j \<noteq> ''<''" for k
    using scan_input_at [of k toks None None False] that io(1) by (simp add: nth_append)
  have out: "output_file p = Some (toks ! Suc k)"
    if "Suc k < length toks" "toks ! k = ''>'' \<or> toks ! k = ''>>''"
       "\<forall>j. k < j \<and> j < length toks \<longrightarrow> toks ! j \<noteq> ''>'' \<and> toks ! j \<noteq> ''>>''" for k
    using scan_output_at [of k toks None None False] that io(2) by (simp add: nth_append)
  have app: "append_output p = (''>>'' \<in> set toks)"
    using io(3) by (simp add: scan_append_flag)
  from p(1) link cells argv i out app show ?thesis by blast
qed

theorem redirections_recorded_and_blanked_witness:
  "strtok_loop ''cat < in.txt > out.txt'' = [''cat'', ''<'', ''in.txt'', ''>'', ''out.txt''] \<and>
   (\<exists>p. parse_tokens [''cat'', ''<'', ''in.txt'', ''>'', ''out.txt''] = Some p \<and>
        tokens p = [Some ''cat'', None, Some ''in.txt'', None, Some ''out.txt'', None] \<and>
        argv_strings (tokens p) = [''cat''] \<and>
        input_file p = Some ''in.txt'' \<and> output_file p = Some ''out.txt'' \<and>
        \<not> append_output p)"
proof -
  let ?toks = "[''cat'', ''<'', ''in.txt'', ''>'', ''out.txt'']"
  have t: "strtok_loop ''cat < in.txt > out.txt'' = ?toks" by code_simp
  have l: "length ?toks < MAX_INPUT_SIZE" by (simp add: MAX_INPUT_SIZE_def)
  from redirections_recorded_and_blanked [OF t [symmetric] l, of calm_env init_sys] obtain p where
    p: "parse_tokens ?toks = Some p"
       "tokens p = map (\<lambda>t. if is_redirection t then None else Some t) ?toks @ [None]"
       "argv_strings (tokens p) = takeWhile (\<lambda>t. \<not> is_redirection t) ?toks"
       "\<forall>k. Suc k < length ?toks \<and> ?toks ! k = ''<'' \<and>
            (\<forall>j. k < j \<and> j < length ?toks \<longrightarrow> ?toks ! j \<noteq> ''<'')
          \<longrightarrow> input_file p = Some (?toks ! Suc k)"
       "\<forall>k. Suc k < length ?toks \<and> (?toks ! k = ''>'' \<or> ?toks ! k = ''>>'') \<and>
            (\<forall>j. k < j \<and> j < length ?toks \<longrightarrow> ?toks ! j \<noteq> ''>'' \<and> ?toks ! j \<noteq> ''>>'')
          \<longrightarrow> output_file p = Some (?toks ! Suc k)"
       "append_output p = (''>>'' \<in> set ?toks)"
    by blast
  have "\<forall>j. 1 < j \<and> j < length ?toks \<longrightarrow> ?toks ! j \<noteq> ''<''"
  proof (intro allI impI)
    fix j :: nat assume "1 < j \<and> j < length ?toks"
    then have "j = 2 \<or> j = 3 \<or> j = 4" by auto
    then show "?toks ! j \<noteq> ''<''" by auto
  qed
  with p(4) [rule_format, of 1] have i: "input_file p = Some ''in.txt''" by simp
  have "\<forall>j. 3 < j \<and> j < length ?toks \<longrightarrow> ?toks ! j \<noteq> ''>'' \<and> ?toks ! j \<noteq> ''>>''"
  proof (intro allI impI)
    fix j :: nat assume "3 < j \<and> j < length ?toks"
    then have "j = 4" by auto
    then show "?toks ! j \<noteq> ''>'' \<and> ?toks ! j \<noteq> ''>>''" by auto
  qed
  with p(5) [rule_format, of 3] have out: "output_file p = Some ''out.txt''"
    by (simp add: numeral_eq_Suc)
  from p(1,2,3,6) i out t show ?thesis by (simp add: is_redirection_def)
qed

section \<open>Dispatch\<close>

text \<open>
  Claim C1, as stated, fails on the code. A registered command \<^verbatim>\<open>foo\<close> whose callback
  returns \<^verbatim>\<open>SHELL_ERROR_EXECUTION_FAILED\<close> (a status that is not "not found") matches
  the line \<^verbatim>\<open>foo\<close>, and yet the dispatch goes on: the built-in strategy does not know
  \<^verbatim>\<open>foo\<close>, the external strategy spawns it, and the line returns \<^verbatim>\<open>SHELL_OK\<close>.
\<close>

theorem custom_match_falls_through_counterexample:
  "custom_command_count (mem foo_sys) = 1 \<and>
   name (custom_commands (mem foo_sys) 0) = Some ''foo'' \<and>
   fst (shell_execute_custom calm_env Ctx 1 (Some [Some ''foo'', None]) foo_sys)
     = Return SHELL_ERROR_EXECUTION_FAILED \<and>
   spawn_requests (trace foo_sys) = [] \<and>
   fst (shell_execute_command calm_env Ctx (Some ''foo'') foo_sys) = Return SHELL_OK \<and>
   map sp_file (spawn_requests (trace (snd (shell_execute_command calm_env Ctx (Some ''foo'') foo_sys))))
     = [Some ''foo''] \<and>
   spawn_requests (trace (snd (shell_execute_command calm_env Ctx (Some ''foo'') foo_sys)))
     \<noteq> spawn_requests (trace foo_sys)"
  unfolding foo_sys_def by code_simp

text \<open>
  Claim C1, amended. For every line whose tokens fit the array, the dispatch tries
  the custom strategy, then the built-in one, then the external one, and stops at the
  first of the first two that returns \<^verbatim>\<open>SHELL_OK\<close>; a strategy that returns any other
  status hands the line on. In particular, once the name of a registered command (the
  first entry of that name) is argument 0 and its callback returns \<^verbatim>\<open>SHELL_OK\<close>, the
  line returns \<^verbatim>\<open>SHELL_OK\<close> and the only event is the call of that callback: neither
  the built-in nor the external strategy is reached.
\<close>

theorem dispatch_stops_at_first_ok:
  assumes "toks = strtok_loop line" and "parse_tokens toks = Some p"
  shows "shell_execute_command env Ctx (Some line) s = dispatch_command env Ctx (length toks) p s \<and>
    (\<forall>s1. shell_execute_custom env Ctx (length toks) (Some (tokens p)) s = (Return SHELL_OK, s1)
       \<longrightarrow> shell_execute_command env Ctx (Some line) s = (Return SHELL_OK, s1)) \<and>
    (\<forall>e s1 t0 s2.
       shell_execute_custom env Ctx (length toks) (Some (tokens p)) s = (Return e, s1) \<and>
       e \<noteq> SHELL_OK \<and> read_slot (tokens p) 0 = Some t0 \<and>
       shell_execute_builtin env Ctx t0 s1 = (Return SHELL_OK, s2)
       \<longrightarrow> shell_execute_command env Ctx (Some line) s = (Return SHELL_OK, s2)) \<and>
    (\<forall>e s1 t0 e2 s2.
       shell_execute_custom env Ctx (length toks) (Some (tokens p)) s = (Return e, s1) \<and>
       e \<noteq> SHELL_OK \<and> read_slot (tokens p) 0 = Some t0 \<and>
       shell_execute_builtin env Ctx t0 s1 = (Return e2, s2) \<and> e2 \<noteq> SHELL_OK
       \<longrightarrow> shell_execute_command env Ctx (Some line) s =
             shell_execute_external env Ctx (Some (tokens p)) (input_file p) (output_file p)
               (append_output p) s2) \<and>
    (\<forall>k cb b.
       toks \<noteq> [] \<and> \<not> is_redirection (hd toks) \<and>
       k < custom_command_count (mem s) \<and>
       name (custom_commands (mem s) k) = Some (hd toks) \<and>
       (\<forall>j<k. \<exists>n. name (custom_commands (mem s) j) = Some n \<and> n \<noteq> hd toks) \<and>
       callback (custom_commands (mem s) k) = Some cb \<and>
       cb (base (mem s)) (length toks) (tokens p) = (SHELL_OK, b)
       \<longrightarrow> shell_execute_command env Ctx (Some line) s =
             (Return SHELL_OK,
              (log_event (Ev_callback k (length toks) (tokens p)) s)\<lparr>mem := (mem s)\<lparr>base := b\<rparr>\<rparr>))"
proof -
  have link: "shell_execute_command env Ctx (Some line) s = dispatch_command env Ctx (length toks) p s"
    using assms by (simp add: command_dispatch)
  have first: "dispatch_command env Ctx (length toks) p s = (Return SHELL_OK, s1)"
    if "shell_execute_custom env Ctx (length toks) (Some (tokens p)) s = (Return SHELL_OK, s1)" for s1
    using that by (simp add: dispatch_command_def)
  have second: "dispatch_command env Ctx (length toks) p s = (Return SHELL_OK, s2)"
    if "shell_execute_custom env Ctx (length toks) (Some (tokens p)) s = (Return e, s1)"
       "e \<noteq> SHELL_OK" "read_slot (tokens p) 0 = Some t0"
       "shell_execute_builtin env Ctx t0 s1 = (Return SHELL_OK, s2)" for e s1 t0 s2
    using that by (simp add: dispatch_command_def)
  have third: "dispatch_command env Ctx (length toks) p s =
       shell_execute_external env Ctx (Some (tokens p)) (input_file p) (output_file p)
         (append_output p) s2"
    if "shell_execute_custom env Ctx (length toks) (Some (tokens p)) s = (Return e, s1)"
       "e \<noteq> SHELL_OK" "read_slot (tokens p) 0 = Some t0"
       "shell_execute_builtin env Ctx t0 s1 = (Return e2, s2)" "e2 \<noteq> SHELL_OK" for e s1 t0 e2 s2
    using that by (simp add: dispatch_command_def)
  have matched: "dispatch_command env Ctx (length toks) p s =
       (Return SHELL_OK,
        (log_event (Ev_callback k (length toks) (tokens p)) s)\<lparr>mem := (mem s)\<lparr>base := b\<rparr>\<rparr>)"
    if h: "toks \<noteq> []" "\<not> is_redirection (hd toks)" "k < custom_command_count (mem s)"
       "name (custom_commands (mem s) k) = Some (hd toks)"
       "\<forall>j<k. \<exists>n. name (custom_commands (mem s) j) = Some n \<and> n \<noteq> hd toks"
       "callback (custom_commands (mem s) k) = Some cb"
       "cb (base (mem s)) (length toks) (tokens p) = (SHELL_OK, b)" for k cb b
  proof -
    from assms(2) have "length toks < MAX_INPUT_SIZE"
      using parse_tokens_None [of toks] by simp
    from parse_tokens_scan [OF this] assms(2)
    have cells: "tokens p = map blank_slot toks @ [None]" by auto
    with h(1,2) have slot: "read_slot (tokens p) 0 = Some (Some (hd toks))"
      by (cases toks) (simp_all add: read_slot_def blank_slot_def)
    have "custom_loop 0 (length toks) (tokens p) s = call_custom k cb (length toks) (tokens p) s"
      using slot h(3,4,5,6) by (intro custom_loop_first_match [where cmd = "hd toks"]) simp_all
    with h(7) show ?thesis
      by (simp add: dispatch_command_def shell_execute_custom_def call_custom_def Let_def)
  qed
  show ?thesis
    unfolding link using first second third matched by blast
qed

theorem dispatch_stops_at_first_ok_witness:
  "strtok_loop ''echo2 a b'' = [''echo2'', ''a'', ''b''] \<and>
   custom_command_count (mem echo2_sys) = 1 \<and>
   name (custom_commands (mem echo2_sys) 0) = Some ''echo2'' \<and>
   callback (custom_commands (mem echo2_sys) 0) = Some hello_callback \<and>
   fst (shell_execute_command calm_env Ctx (Some ''echo2 a b'') echo2_sys) = Return SHELL_OK \<and>
   trace (snd (shell_execute_command calm_env Ctx (Some ''echo2 a b'') echo2_sys)) =
     trace echo2_sys @ [Ev_callback 0 3 [Some ''echo2'', Some ''a'', Some ''b'', None]]"
proof -
  let ?p = "\<lparr>tokens = [Some ''echo2'', Some ''a'', Some ''b'', None], input_file = None,
             output_file = None, append_output = False\<rparr>"
  have t: "strtok_loop ''echo2 a b'' = [''echo2'', ''a'', ''b'']" by code_simp
  have p: "parse_tokens [''echo2'', ''a'', ''b''] = Some ?p" by code_simp
  have c: "custom_command_count (mem echo2_sys) = 1"
    unfolding echo2_sys_def by code_simp
  have n: "name (custom_commands (mem echo2_sys) 0) = Some ''echo2''"
    unfolding echo2_sys_def by code_simp
  have cb: "callback (custom_commands (mem echo2_sys) 0) = Some hello_callback"
    unfolding echo2_sys_def
    by (simp add: session_def shell_init_def strdup_def Let_def log_event_def calm_env_def
          shell_register_command_def MAX_CUSTOM_COMMANDS_def)
  have r: "\<not> is_redirection ''echo2''" by (simp add: is_redirection_def)
  have "shell_execute_command calm_env Ctx (Some ''echo2 a b'') echo2_sys =
      (Return SHELL_OK,
       (log_event (Ev_callback 0 (length [''echo2'', ''a'', ''b'']) (tokens ?p)) echo2_sys)
         \<lparr>mem := (mem echo2_sys)\<lparr>base := base (mem echo2_sys)\<rparr>\<rparr>)"
    using dispatch_stops_at_first_ok [OF t [symmetric] p, of calm_env echo2_sys, THEN conjunct2, THEN conjunct2,
        THEN conjunct2, THEN conjunct2, rule_format, of 0 hello_callback "base (mem echo2_sys)"]
      c n cb r
    by (simp add: hello_callback_def)
  with t c n cb show ?thesis by simp
qed

lemma strtok_loop_spaces: "\<forall>c\<in>set line. c = CHR '' '' \<Longrightarrow> strtok_loop line = []"
proof -
  assume "\<forall>c\<in>set line. c = CHR '' ''"
  then have "dropWhile (\<lambda>c. c = CHR '' '') line = []" by simp
  then show ?thesis by (subst strtok_loop.simps) simp
qed

lemma parse_tokens_Nil:
  "parse_tokens [] = Some \<lparr>tokens = [None], input_file = None, output_file = None, append_output = False\<rparr>"
  by (simp add: parse_tokens_def MAX_INPUT_SIZE_def redirect_loop.simps)

text \<open>
  Claim C3 on the code. A line of spaces has no tokens, but the dispatch does not
  report "not found" and stop: the code has no case for the empty line. With an empty
  registry the custom strategy finds nothing, the built-in strategy returns
  \<^verbatim>\<open>SHELL_ERROR_NULL_POINTER\<close> for the null \<^verbatim>\<open>tokens[0]\<close>, and the external strategy
  calls \<^verbatim>\<open>posix_spawnp\<close> with a null file and an empty argument vector; the line
  returns \<^verbatim>\<open>SHELL_OK\<close> or \<^verbatim>\<open>SHELL_ERROR_EXECUTION_FAILED\<close> as that spawn goes, never
  \<^verbatim>\<open>SHELL_ERROR_COMMAND_NOT_FOUND\<close> (no job is added: \<^verbatim>\<open>shell_add_job\<close> rejects the
  null command). With a command registered, \<^verbatim>\<open>strcmp\<close> is handed the null
  \<^verbatim>\<open>argv[0]\<close>: a fault.
\<close>

theorem blank_line_reaches_spawn:
  assumes "\<forall>c\<in>set line. c = CHR '' ''"
  shows "strtok_loop line = [] \<and>
    (custom_command_count (mem s) = 0 \<longrightarrow>
       spawn_requests (trace (snd (shell_execute_command env Ctx (Some line) s))) =
         spawn_requests (trace s) @
           [\<lparr>sp_file = None, sp_argv = [], sp_file_actions = [],
             sp_flags = {POSIX_SPAWN_SETSIGMASK, POSIX_SPAWN_SETSIGDEF},
             sp_sigmask = signal_mask (base (mem s))\<rparr>] \<and>
       (fst (shell_execute_command env Ctx (Some line) s) = Return SHELL_OK \<or>
        fst (shell_execute_command env Ctx (Some line) s) = Return SHELL_ERROR_EXECUTION_FAILED) \<and>
       job_count (mem (snd (shell_execute_command env Ctx (Some line) s))) = job_count (mem s)) \<and>
    (0 < custom_command_count (mem s) \<longrightarrow>
       fst (shell_execute_command env Ctx (Some line) s) = Fault)"
proof -
  let ?p = "\<lparr>tokens = [None], input_file = None, output_file = None, append_output = False\<rparr>"
  have toks: "strtok_loop line = []" using assms by (rule strtok_loop_spaces)
  then have cmd: "shell_execute_command env Ctx (Some line) s = dispatch_command env Ctx 0 ?p s"
    by (simp add: shell_execute_command_def parse_tokens_Nil)
  have ext: "dispatch_command env Ctx 0 ?p s =
      shell_execute_external env Ctx (Some [None]) None None False
        (set_last_error SHELL_ERROR_COMMAND_NOT_FOUND s)"
    if "custom_command_count (mem s) = 0"
    using dispatch_external [OF that, of ?p None "[]" env 0] by simp
  have spawn: "spawn_requests (trace (snd (dispatch_command env Ctx 0 ?p s))) =
         spawn_requests (trace s) @
           [\<lparr>sp_file = None, sp_argv = [], sp_file_actions = [],
             sp_flags = {POSIX_SPAWN_SETSIGMASK, POSIX_SPAWN_SETSIGDEF},
             sp_sigmask = signal_mask (base (mem s))\<rparr>]"
    if "custom_command_count (mem s) = 0"
    using ext [OF that]
    by (simp add: spawn_requests_external argv_strings_def redirect_actions_def set_last_error_def)
  have status: "fst (dispatch_command env Ctx 0 ?p s) = Return SHELL_OK \<or>
      fst (dispatch_command env Ctx 0 ?p s) = Return SHELL_ERROR_EXECUTION_FAILED"
    if "custom_command_count (mem s) = 0"
    using ext [OF that]
    by (simp add: shell_execute_external_def read_slot_def Let_def case_prod_beta)
  have count: "job_count (mem (snd (dispatch_command env Ctx 0 ?p s))) = job_count (mem s)"
    if "custom_command_count (mem s) = 0"
    using ext [OF that]
    by (simp add: shell_execute_external_def read_slot_def Let_def case_prod_beta shell_add_job_def)
  have fault: "fst (dispatch_command env Ctx 0 ?p s) = Fault" if "0 < custom_command_count (mem s)"
    using that
    by (simp add: dispatch_command_def shell_execute_custom_def custom_loop.simps [of 0] read_slot_def)
  from toks spawn status count fault show ?thesis unfolding cmd by blast
qed


theorem blank_line_reaches_spawn_witness:
  "strtok_loop ''   '' = [] \<and>
   custom_command_count (mem init_sys) = 0 \<and>
   fst (shell_execute_command calm_env Ctx (Some ''   '') init_sys) = Return SHELL_OK \<and>
   spawn_requests (trace (snd (shell_execute_command calm_env Ctx (Some ''   '') init_sys))) =
     [\<lparr>sp_file = None, sp_argv = [], sp_file_actions = [],
       sp_flags = {POSIX_SPAWN_SETSIGMASK, POSIX_SPAWN_SETSIGDEF},
       sp_sigmask = {SIGINT, SIGTERM}\<rparr>] \<and>
   job_count (mem (snd (shell_execute_command calm_env Ctx (Some ''   '') init_sys))) = 0 \<and>
   0 < custom_command_count (mem echo2_sys) \<and>
   fst (shell_execute_command calm_env Ctx (Some ''   '') echo2_sys) = Fault"
proof -
  have spaces: "\<forall>c\<in>set ''   ''. c = CHR '' ''" by simp
  have e: "custom_command_count (mem init_sys) = 0 \<and>
      fst (shell_execute_command calm_env Ctx (Some ''   '') init_sys) = Return SHELL_OK \<and>
      spawn_requests (trace (snd (shell_execute_command calm_env Ctx (Some ''   '') init_sys))) =
        [\<lparr>sp_file = None, sp_argv = [], sp_file_actions = [],
          sp_flags = {POSIX_SPAWN_SETSIGMASK, POSIX_SPAWN_SETSIGDEF},
          sp_sigmask = {SIGINT, SIGTERM}\<rparr>] \<and>
      job_count (mem (snd (shell_execute_command calm_env Ctx (Some ''   '') init_sys))) = 0 \<and>
      0 < custom_command_count (mem echo2_sys)"
    unfolding init_sys_def echo2_sys_def by code_simp
  from blank_line_reaches_spawn [OF spaces, of echo2_sys calm_env]
    blank_line_reaches_spawn [OF spaces, of init_sys calm_env] e
  show ?thesis by simp
qed

end
